theory Spec2Isabelle
  imports Complex_Main
begin

section \<open>Spreadsheet values and Python primitives\<close>

text \<open>
  The bot keeps all of its state in worksheets of one spreadsheet. A worksheet is the
  list of its rows as \<^verbatim>\<open>get_all_values\<close> returns them, row 1 (the header row)
  first; a cell holds either text or a whole number, which is what
  \<^verbatim>\<open>get_all_records\<close> hands back after it has converted the numeric cells.
  A blank cell is the empty text.
\<close>

datatype cell = S string | N int

type_synonym row = "cell list"
type_synonym sheet = "row list"

text \<open>A record as \<^verbatim>\<open>get_all_records\<close> returns it: header name paired with value.\<close>

type_synonym rec = "(string \<times> cell) list"

datatype py_error = TypeError | AttributeError | KeyError | ValueError | GSpreadException

text \<open>Decimal printing of integers, as \<^verbatim>\<open>str(n)\<close> and f-strings do.\<close>

definition digit_char :: "nat \<Rightarrow> char" where
  "digit_char d = ''0123456789'' ! d"

fun digits :: "nat \<Rightarrow> string" where
  "digits n = (if n < 10 then [digit_char n] else digits (n div 10) @ [digit_char (n mod 10)])"

definition show_int :: "int \<Rightarrow> string" where
  "show_int i = (if i < 0 then CHR ''-'' # digits (nat (- i)) else digits (nat i))"

text \<open>\<^verbatim>\<open>str(x)\<close> on a cell value.\<close>

fun str :: "cell \<Rightarrow> string" where
  "str (S s) = s"
| "str (N i) = show_int i"

text \<open>\<^verbatim>\<open>record.get(key, default)\<close>.\<close>

definition get :: "rec \<Rightarrow> string \<Rightarrow> cell \<Rightarrow> cell" where
  "get r k d = (case map_of r k of None \<Rightarrow> d | Some v \<Rightarrow> v)"

text \<open>\<^verbatim>\<open>record[key]\<close>, which raises KeyError on a missing key.\<close>

definition item :: "rec \<Rightarrow> string \<Rightarrow> py_error + cell" where
  "item r k = (case map_of r k of None \<Rightarrow> Inl KeyError | Some v \<Rightarrow> Inr v)"

text \<open>\<^verbatim>\<open>s.lower()\<close> and \<^verbatim>\<open>s.upper()\<close> on ASCII text.\<close>

definition lower_char :: "char \<Rightarrow> char" where
  "lower_char c = (let k = (of_char c :: nat) in if 65 \<le> k \<and> k \<le> 90 then char_of (k + 32) else c)"


definition lower :: "string \<Rightarrow> string" where
  "lower s = map lower_char s"


text \<open>\<^verbatim>\<open>x.lower()\<close> on a cell value: a number has no such method.\<close>

fun cell_lower :: "cell \<Rightarrow> py_error + string" where
  "cell_lower (S s) = Inr (lower s)"
| "cell_lower (N i) = Inl AttributeError"

text \<open>
  \<^verbatim>\<open>s.strip()\<close>: removes the white space at both ends. A character stands for a
  code point below 256; of these Python counts as white space 9 to 13, 28 to 32, 133
  and 160.
\<close>

definition is_space :: "char \<Rightarrow> bool" where
  "is_space c =
     (let k = (of_char c :: nat)
      in (9 \<le> k \<and> k \<le> 13) \<or> (28 \<le> k \<and> k \<le> 32) \<or> k = 133 \<or> k = 160)"

definition strip :: "string \<Rightarrow> string" where
  "strip s = rev (dropWhile is_space (rev (dropWhile is_space s)))"

section \<open>Reading a worksheet: \<^verbatim>\<open>get_all_records_safe\<close>\<close>

text \<open>
  First loop of the header cleaning: a header that is blank after stripping becomes
  \<^verbatim>\<open>Column_<position>\<close> (positions count from 1), any other header is stripped.
\<close>

fun clean_from :: "nat \<Rightarrow> string list \<Rightarrow> string list" where
  "clean_from i [] = []"
| "clean_from i (header # hs) =
     (if strip header \<noteq> [] then strip header else ''Column_'' @ digits (i + 1))
       # clean_from (i + 1) hs"

definition cleaned_headers :: "string list \<Rightarrow> string list" where
  "cleaned_headers header_row = clean_from 0 header_row"

text \<open>
  Second loop: \<^verbatim>\<open>header_count\<close> maps each name seen so far to the number of
  repetitions; a repeated name gets that number as a suffix.
\<close>

fun dedup_from :: "(string \<rightharpoonup> nat) \<Rightarrow> string list \<Rightarrow> string list" where
  "dedup_from header_count [] = []"
| "dedup_from header_count (header # hs) =
     (case header_count header of
        Some c \<Rightarrow> (header @ ''_'' @ digits (c + 1)) # dedup_from (header_count(header \<mapsto> c + 1)) hs
      | None \<Rightarrow> header # dedup_from (header_count(header \<mapsto> 0)) hs)"

definition final_headers :: "string list \<Rightarrow> string list" where
  "final_headers header_row = dedup_from Map.empty (cleaned_headers header_row)"

text \<open>Row-to-mapping conversion: the dictionary built from headers and one data row.\<close>

definition row_to_mapping :: "string list \<Rightarrow> row \<Rightarrow> (string \<rightharpoonup> cell)" where
  "row_to_mapping hs r = map_of (rev (zip hs r))"

text \<open>Filling a list up to a length.\<close>

definition pad :: "nat \<Rightarrow> 'a \<Rightarrow> 'a list \<Rightarrow> 'a list" where
  "pad n x xs = xs @ replicate (n - length xs) x"

text \<open>
  \<^verbatim>\<open>get_all_records_safe\<close>. A sheet with fewer than two rows has no records. The
  cleaned header row is written back to row 1 when it differs from the one read. The
  records are then read with the cleaned headers as \<^verbatim>\<open>expected_headers\<close>; the
  spreadsheet library raises when these are not unique, and the function's own
  \<^verbatim>\<open>except\<close> turns that into the empty list. The library hands the rows over
  filled up with blank cells, so a record has every header as a key. The worksheet is
  taken to be no wider than its header row: cells of a data row beyond the last header
  are left out. The result is the list of records together with the sheet as the call
  leaves it.
\<close>

definition read_row :: "string list \<Rightarrow> row \<Rightarrow> rec" where
  "read_row headers r = zip headers (pad (length headers) (S []) r)"

definition get_all_records_safe :: "sheet \<Rightarrow> rec list \<times> sheet" where
  "get_all_records_safe sh =
     (if length sh < 2 then ([], sh)
      else
        let header_row = map str (hd sh);
            final = final_headers header_row;
            sh' = (if final \<noteq> header_row then (map S final) # tl sh else sh)
        in if \<not> distinct final then ([], sh')
           else (map (read_row final) (tl sh'), sh'))"

section \<open>The worksheets and the cycle state\<close>

text \<open>
  The three worksheets the bot opens by name. \<^verbatim>\<open>get_sheet\<close> is never asked to
  create a missing worksheet, so it returns the worksheet or nothing.
\<close>

datatype sheet_name = Cycles | AllSignups | AllWinners

record world =
  cycles_ws :: "sheet option"
  signups_ws :: "sheet option"
  winners_ws :: "sheet option"

fun get_sheet :: "world \<Rightarrow> sheet_name \<Rightarrow> sheet option" where
  "get_sheet w Cycles = cycles_ws w"
| "get_sheet w AllSignups = signups_ws w"
| "get_sheet w AllWinners = winners_ws w"

fun put_sheet :: "world \<Rightarrow> sheet_name \<Rightarrow> sheet \<Rightarrow> world" where
  "put_sheet w Cycles sh = w\<lparr>cycles_ws := Some sh\<rparr>"
| "put_sheet w AllSignups sh = w\<lparr>signups_ws := Some sh\<rparr>"
| "put_sheet w AllWinners sh = w\<lparr>winners_ws := Some sh\<rparr>"

text \<open>
  Cell access by 1-based row and column. Cells outside the stored rows are blank;
  writing to one extends the stored rows with blanks up to it.
\<close>

definition update_cell :: "sheet \<Rightarrow> nat \<Rightarrow> nat \<Rightarrow> cell \<Rightarrow> sheet" where
  "update_cell sh i j v =
     (let rows = pad i [] sh
      in rows[i - 1 := (pad j (S '''') (rows ! (i - 1)))[j - 1 := v]])"

definition cell_value :: "sheet \<Rightarrow> nat \<Rightarrow> nat \<Rightarrow> string" where
  "cell_value sh i j =
     (if i - 1 < length sh \<and> j - 1 < length (sh ! (i - 1)) then str (sh ! (i - 1) ! (j - 1))
      else '''')"

definition append_row :: "sheet \<Rightarrow> row \<Rightarrow> sheet" where
  "append_row sh r = sh @ [r]"

text \<open>
  \<^verbatim>\<open>int(s)\<close> on text: white space around, an optional sign, decimal digits with
  single underscores between them; anything else raises ValueError.
\<close>

definition is_digit :: "char \<Rightarrow> bool" where
  "is_digit c = (let k = (of_char c :: nat) in 48 \<le> k \<and> k \<le> 57)"

definition digit_val :: "char \<Rightarrow> nat" where
  "digit_val c = of_char c - 48"

fun parse_digits :: "nat \<Rightarrow> bool \<Rightarrow> string \<Rightarrow> nat option" where
  "parse_digits acc prev [] = (if prev then Some acc else None)"
| "parse_digits acc prev (c # cs) =
     (if is_digit c then parse_digits (10 * acc + digit_val c) True cs
      else if c = CHR ''_'' \<and> prev then parse_digits acc False cs
      else None)"

definition py_int :: "string \<Rightarrow> py_error + int" where
  "py_int s =
     (let t = strip s;
          neg = (t \<noteq> [] \<and> hd t = CHR ''-'');
          body = (if t \<noteq> [] \<and> (hd t = CHR ''-'' \<or> hd t = CHR ''+'') then tl t else t)
      in case parse_digits 0 False body of
           None \<Rightarrow> Inl ValueError
         | Some n \<Rightarrow> Inr (if neg then - int n else int n))"

record cycle =
  year :: int
  signups_open :: bool
  phase :: string

text \<open>
  \<^verbatim>\<open>get_current_cycle\<close> reads the cells G2, G3 and G4 of the Cycles worksheet. The
  value of a blank cell is \<^verbatim>\<open>None\<close>: G2 and G4 then fall back to 1990 and
  "Primary", while \<^verbatim>\<open>.lower()\<close> on G3 raises. Any exception (also a year that is
  not a number) is caught and gives nothing.
\<close>

definition get_current_cycle :: "world \<Rightarrow> cycle option" where
  "get_current_cycle w =
     (case get_sheet w Cycles of
        None \<Rightarrow> None
      | Some cycles_sheet \<Rightarrow>
          (case (let v = cell_value cycles_sheet 2 7 in if v = [] then Inr 1990 else py_int v) of
             Inl e \<Rightarrow> None
           | Inr y \<Rightarrow>
               if cell_value cycles_sheet 3 7 = [] then None
               else
                 Some \<lparr>year = y,
                       signups_open = (lower (cell_value cycles_sheet 3 7) = ''true''),
                       phase = (let v = cell_value cycles_sheet 4 7
                                in if v = [] then ''Primary'' else v)\<rparr>))"



text \<open>
  The worksheet a command acts on: All Signups during the Primary phase, All Winners
  otherwise.
\<close>

definition phase_sheet :: "cycle \<Rightarrow> sheet_name" where
  "phase_sheet c = (if phase c = ''Primary'' then AllSignups else AllWinners)"

text \<open>A list comprehension whose condition may raise.\<close>

fun filter_err :: "('a \<Rightarrow> py_error + bool) \<Rightarrow> 'a list \<Rightarrow> py_error + 'a list" where
  "filter_err p [] = Inr []"
| "filter_err p (x # xs) =
     (case p x of
        Inl e \<Rightarrow> Inl e
      | Inr b \<Rightarrow>
          (case filter_err p xs of
             Inl e \<Rightarrow> Inl e
           | Inr ys \<Rightarrow> Inr (if b then x # ys else ys)))"

text \<open>Reading a worksheet of the world and keeping the rewritten header row.\<close>

definition read_records :: "world \<Rightarrow> sheet_name \<Rightarrow> rec list \<times> world" where
  "read_records w nm =
     (case get_sheet w nm of
        None \<Rightarrow> ([], w)
      | Some sh \<Rightarrow> (let (records, sh') = get_all_records_safe sh in (records, put_sheet w nm sh')))"

definition get_eligible_seats :: "world \<Rightarrow> int \<Rightarrow> string \<Rightarrow> py_error + (rec list \<times> world)" where
  "get_eligible_seats w y state =
     (case get_sheet w Cycles of
        None \<Rightarrow> Inr ([], w)
      | Some cycles_sheet \<Rightarrow>
          (let (records, w') = read_records w Cycles;
               eligible_seats = filter (\<lambda>r. get r ''Year'' (N 0) = N y) records
           in if state \<noteq> [] then
                (case filter_err
                        (\<lambda>r. case cell_lower (get r ''State'' (S '''')) of
                               Inl e \<Rightarrow> Inl e
                             | Inr s \<Rightarrow> Inr (s = lower state)) eligible_seats of
                   Inl e \<Rightarrow> Inl e
                 | Inr seats \<Rightarrow> Inr (seats, w'))
              else Inr (eligible_seats, w')))"

text \<open>
  \<^verbatim>\<open>add_signup\<close> appends the ten-column row; the state it is given is not written.
\<close>

definition add_signup :: "world \<Rightarrow> int \<Rightarrow> string \<Rightarrow> string \<Rightarrow> string \<Rightarrow> string \<Rightarrow> cell \<Rightarrow> world" where
  "add_signup w user_id name seat_id party state office =
     (case get_sheet w AllSignups of
        None \<Rightarrow> w
      | Some signups_sheet \<Rightarrow>
          (case get_current_cycle w of
             None \<Rightarrow> w
           | Some c \<Rightarrow>
               put_sheet w AllSignups
                 (append_row signups_sheet
                    [N user_id, S name, S seat_id, S party, S (phase c), office,
                     N 0, N 100, N 0, S ''''])))"

text \<open>The header row of All Signups: the ten columns \<^verbatim>\<open>add_signup\<close> fills.\<close>

definition signup_headers :: "string list" where
  "signup_headers = [''User ID'', ''Name'', ''Seat ID'', ''Party'', ''Phase'', ''Office'',
                     ''Corruption'', ''Stamina'', ''Points'', ''Winner'']"

section \<open>Command handlers\<close>

text \<open>
  Every handler answers with one message. A handler's outer \<^verbatim>\<open>except\<close> turns any
  exception into the generic apology (\<open>ErrorOccurred\<close>); writes made before the
  exception stay.
\<close>

datatype action = Rally | Canvassing

datatype reply =
    ErrorSignupsData
  | AlreadySignedUp
  | AlreadyActive
  | ErrorCycleData
  | SignupsClosed
  | NoEligibleSeats string int
  | SeatChoice "rec list"
  | InvalidSeat
  | AlreadySignedUpOtherRace
  | AlreadyInWinnersSheet
  | SignedUp string string cell string string
  | ErrorDataSheet
  | NotEnoughStamina int int
  | ActionDone action cell int int
  | NotSignedUp
  | NoCandidates
  | NoPollingData
  | NationalPoll "(cell \<times> cell \<times> rat) list"
  | NoCandidatesIn string
  | NoPollingDataIn string
  | StatePoll string "(cell \<times> cell \<times> rat) list"
  | NotAdmin
  | TallyComplete nat
  | ErrorRequiredSheets
  | TransferComplete nat
  | ErrorOccurred

subsection \<open>signup and the seat button\<close>

text \<open>
  The identifier of a button has to be text: building the button from a seat whose
  Seat ID is a number raises.
\<close>

fun is_text :: "cell \<Rightarrow> bool" where
  "is_text (S s) = True"
| "is_text (N i) = False"

text \<open>The scan of All Signups for a record of the user that is neither Withdrawn nor Loser.\<close>

definition active_in_signups :: "string \<Rightarrow> rec list \<Rightarrow> bool" where
  "active_in_signups user_id_str records =
     list_ex (\<lambda>record. str (get record ''User ID'' (S '''')) = user_id_str
                \<and> get record ''Winner'' (S '''') \<notin> {S ''Withdrawn'', S ''Loser''}) records"

text \<open>The scan of All Winners for any record of the user.\<close>

definition present_in_winners :: "string \<Rightarrow> rec list \<Rightarrow> bool" where
  "present_in_winners user_id_str records =
     list_ex (\<lambda>record. str (get record ''User ID'' (S '''')) = user_id_str) records"

text \<open>
  \<^verbatim>\<open>signup\<close>. The list of seat labels reads Seat ID and Office of every seat with
  \<^verbatim>\<open>seat[...]\<close>, and the view builds a button for each of the first 25 seats; an
  exception in either ends in the generic apology.
\<close>

definition signup :: "world \<Rightarrow> int \<Rightarrow> string \<Rightarrow> string \<Rightarrow> string \<Rightarrow> reply \<times> world" where
  "signup w user_id state name party =
     (case get_sheet w AllSignups of
        None \<Rightarrow> (ErrorSignupsData, w)
      | Some signups_sheet \<Rightarrow>
          let user_id_str = show_int user_id;
              (signups_records, w1) = read_records w AllSignups
          in if active_in_signups user_id_str signups_records then (AlreadySignedUp, w1)
             else
               let (winners_records, w2) = read_records w1 AllWinners
               in if present_in_winners user_id_str winners_records then (AlreadyActive, w2)
                  else
                    (case get_current_cycle w2 of
                       None \<Rightarrow> (ErrorCycleData, w2)
                     | Some c \<Rightarrow>
                         if \<not> signups_open c then (SignupsClosed, w2)
                         else
                           (case get_eligible_seats w2 (year c) state of
                              Inl e \<Rightarrow> (ErrorOccurred, snd (read_records w2 Cycles))
                            | Inr (seats, w3) \<Rightarrow>
                                if seats = [] then (NoEligibleSeats state (year c), w3)
                                else if list_all (\<lambda>s. map_of s ''Seat ID'' \<noteq> None
                                                     \<and> map_of s ''Office'' \<noteq> None) seats
                                        \<and> list_all (\<lambda>s. is_text (get s ''Seat ID'' (S [])))
                                              (take 25 seats)
                                then (SeatChoice seats, w3)
                                else (ErrorOccurred, w3))))"

text \<open>
  The callback of a seat button: \<open>seats\<close> is the list the view was built from,
  \<open>seat_id\<close> the identifier of the pressed button. The duplicate scans are run again on
  the worksheets as they are now, before \<^verbatim>\<open>add_signup\<close>.
\<close>

definition seat_callback ::
  "world \<Rightarrow> rec list \<Rightarrow> int \<Rightarrow> string \<Rightarrow> string \<Rightarrow> string \<Rightarrow> string \<Rightarrow> reply \<times> world" where
  "seat_callback w seats user_id state name party seat_id =
     (case find (\<lambda>s. get s ''Seat ID'' (S '''') = S seat_id) seats of
        None \<Rightarrow> (InvalidSeat, w)
      | Some selected_seat \<Rightarrow>
          let user_id_str = show_int user_id;
              (signups_records, w1) = read_records w AllSignups;
              (winners_records, w2) = read_records w1 AllWinners
          in if active_in_signups user_id_str signups_records then (AlreadySignedUpOtherRace, w2)
             else if present_in_winners user_id_str winners_records then (AlreadyInWinnersSheet, w2)
             else
               (case item selected_seat ''Office'' of
                  Inl e \<Rightarrow> (ErrorOccurred, w2)
                | Inr office \<Rightarrow>
                    (SignedUp name seat_id office state party,
                     add_signup w2 user_id name seat_id party state office)))"

subsection \<open>rally and canvassing\<close>

text \<open>
  \<^verbatim>\<open>random.randint(a, b)\<close> returns a whole number between \<open>a\<close> and \<open>b\<close>, both
  included; here it is computed from the entropy \<open>e\<close> the generator supplies.
\<close>

definition randint :: "int \<Rightarrow> int \<Rightarrow> nat \<Rightarrow> int" where
  "randint a b e = a + int e mod (b - a + 1)"

text \<open>The test of the scan: the record is the user's and not Withdrawn.\<close>

definition active_for :: "string \<Rightarrow> rec \<Rightarrow> bool" where
  "active_for user_id_str record =
     (str (get record ''User ID'' (S [])) = user_id_str
      \<and> get record ''Winner'' (S []) \<noteq> S ''Withdrawn'')"

text \<open>
  The scan for the first such record, with its row number (the records start at row 2).
\<close>

fun find_active :: "string \<Rightarrow> nat \<Rightarrow> rec list \<Rightarrow> (nat \<times> rec) option" where
  "find_active user_id_str i [] = None"
| "find_active user_id_str i (record # records) =
     (if active_for user_id_str record then Some (i, record)
      else find_active user_id_str (i + 1) records)"

text \<open>
  The two handlers are the same code with different constants: the cost, and the
  bounds of the points drawn.
\<close>

definition point_action ::
  "action \<Rightarrow> int \<Rightarrow> int \<Rightarrow> int \<Rightarrow> world \<Rightarrow> int \<Rightarrow> nat \<Rightarrow> reply \<times> world" where
  "point_action kind cost lo hi w user_id e =
     (case get_current_cycle w of
        None \<Rightarrow> (ErrorCycleData, w)
      | Some c \<Rightarrow>
          (let nm = phase_sheet c
           in (case get_sheet w nm of
                 None \<Rightarrow> (ErrorDataSheet, w)
               | Some sheet0 \<Rightarrow>
                   (let (records, sh) = get_all_records_safe sheet0;
                        w1 = put_sheet w nm sh
                    in (case find_active (show_int user_id) 2 records of
                          None \<Rightarrow> (NotSignedUp, w1)
                        | Some (i, record) \<Rightarrow>
                            (case get record ''Stamina'' (N 0) of
                               S t \<Rightarrow> (ErrorOccurred, w1)
                             | N st \<Rightarrow>
                                 if st < cost then (NotEnoughStamina cost (max st 0), w1)
                                 else
                                   (let points = randint lo hi e;
                                        stamina = max (st - cost) 0
                                    in (case get record ''Points'' (N 0) of
                                          S t \<Rightarrow> (ErrorOccurred, w1)
                                        | N p \<Rightarrow>
                                            (ActionDone kind (get record ''Name'' (S [])) points stamina,
                                             put_sheet w1 nm
                                               (update_cell (update_cell sh i 8 (N stamina))
                                                  i 9 (N (p + points))))))))))))"

definition rally :: "world \<Rightarrow> int \<Rightarrow> nat \<Rightarrow> reply \<times> world" where
  "rally = point_action Rally 10 5 15"

definition canvassing :: "world \<Rightarrow> int \<Rightarrow> nat \<Rightarrow> reply \<times> world" where
  "canvassing = point_action Canvassing 5 3 10"

subsection \<open>poll\<close>

text \<open>\<^verbatim>\<open>sum(c.get("Points", 0) for c in candidates)\<close>; adding text to a number raises.\<close>

fun sum_points :: "rec list \<Rightarrow> py_error + int" where
  "sum_points [] = Inr 0"
| "sum_points (c # cs) =
     (case sum_points cs of
        Inl e \<Rightarrow> Inl e
      | Inr t \<Rightarrow> (case get c ''Points'' (N 0) of N p \<Rightarrow> Inr (p + t) | S s \<Rightarrow> Inl TypeError))"

text \<open>
  \<^verbatim>\<open>f"{percentage:.1f}"\<close>: the share printed with one decimal. The share is the
  exact quotient here, rounded to the nearest tenth; the binary floating-point
  arithmetic of the source is not modelled.
\<close>

definition one_decimal :: "rat \<Rightarrow> rat" where
  "one_decimal x = of_int (round (x * 10)) / 10"

text \<open>
  One line of the message per candidate: name, party and the share
  \<open>points / total * 100\<close> as printed.
\<close>

fun poll_lines :: "int \<Rightarrow> rec list \<Rightarrow> py_error + (cell \<times> cell \<times> rat) list" where
  "poll_lines total_points [] = Inr []"
| "poll_lines total_points (c # cs) =
     (case get c ''Points'' (N 0) of
        S s \<Rightarrow> Inl TypeError
      | N p \<Rightarrow>
          (case poll_lines total_points cs of
             Inl e \<Rightarrow> Inl e
           | Inr ls \<Rightarrow>
               Inr ((get c ''Name'' (S []), get c ''Party'' (S []),
                     one_decimal ((of_int p / of_int total_points) * 100)) # ls)))"

definition nation_candidates :: "string \<Rightarrow> rec list \<Rightarrow> rec list" where
  "nation_candidates ph records =
     filter (\<lambda>r. get r ''Phase'' (S '''') = S ph \<and> get r ''Winner'' (S '''') \<noteq> S ''Withdrawn'')
       records"

definition state_candidates :: "string \<Rightarrow> string \<Rightarrow> rec list \<Rightarrow> py_error + rec list" where
  "state_candidates scope ph records =
     filter_err
       (\<lambda>r. case cell_lower (get r ''State'' (S '''')) of
               Inl e \<Rightarrow> Inl e
             | Inr s \<Rightarrow> Inr (s = lower scope \<and> get r ''Phase'' (S '''') = S ph
                              \<and> get r ''Winner'' (S '''') \<noteq> S ''Withdrawn''))
       records"

definition poll :: "world \<Rightarrow> string \<Rightarrow> reply \<times> world" where
  "poll w scope =
     (case get_current_cycle w of
        None \<Rightarrow> (ErrorCycleData, w)
      | Some c \<Rightarrow>
          let nm = phase_sheet c
          in (case get_sheet w nm of
               None \<Rightarrow> (ErrorDataSheet, w)
             | Some sheet0 \<Rightarrow>
                 let (records, w1) = read_records w nm
                 in if lower scope = ''nation'' then
                      (let candidates = nation_candidates (phase c) records
                       in if candidates = [] then (NoCandidates, w1)
                          else
                            (case sum_points candidates of
                               Inl e \<Rightarrow> (ErrorOccurred, w1)
                             | Inr total_points \<Rightarrow>
                                 if total_points = 0 then (NoPollingData, w1)
                                 else
                                   (case poll_lines total_points candidates of
                                      Inl e \<Rightarrow> (ErrorOccurred, w1)
                                    | Inr ls \<Rightarrow> (NationalPoll ls, w1))))
                    else
                      (case state_candidates scope (phase c) records of
                         Inl e \<Rightarrow> (ErrorOccurred, w1)
                       | Inr candidates \<Rightarrow>
                           if candidates = [] then (NoCandidatesIn scope, w1)
                           else
                             (case sum_points candidates of
                                Inl e \<Rightarrow> (ErrorOccurred, w1)
                              | Inr total_points \<Rightarrow>
                                  if total_points = 0 then (NoPollingDataIn scope, w1)
                                  else
                                    (case poll_lines total_points candidates of
                                       Inl e \<Rightarrow> (ErrorOccurred, w1)
                                     | Inr ls \<Rightarrow> (StatePoll scope ls, w1))))))"

subsection \<open>tally\_winners\<close>

definition terminal_status :: "rec \<Rightarrow> bool" where
  "terminal_status record =
     (get record ''Winner'' (S '''') \<in> {S ''Withdrawn'', S ''Winner'', S ''Loser''})"

text \<open>
  The dictionary \<^verbatim>\<open>races\<close>, in insertion order: the key is the pair of seat and
  party, the value the list of the candidates in scan order.
\<close>

type_synonym races = "((cell \<times> cell) \<times> rec list) list"

fun races_add :: "races \<Rightarrow> cell \<times> cell \<Rightarrow> rec \<Rightarrow> races" where
  "races_add [] key record = [(key, [record])]"
| "races_add ((k, candidates) # rest) key record =
     (if k = key then (k, candidates @ [record]) # rest
      else (k, candidates) # races_add rest key record)"

fun group_races :: "races \<Rightarrow> rec list \<Rightarrow> races" where
  "group_races races [] = races"
| "group_races races (record # records) =
     (if terminal_status record then group_races races records
      else group_races
             (races_add races (get record ''Seat ID'' (S ''''), get record ''Party'' (S '''')) record)
             records)"

text \<open>
  \<^verbatim>\<open>max(candidates, key=...)\<close> keeps the first candidate and replaces it only by a
  later one whose points are strictly greater. Two numbers compare as numbers, two
  texts by code points; a number against a text raises.
\<close>

fun str_less :: "string \<Rightarrow> string \<Rightarrow> bool" where
  "str_less [] [] = False"
| "str_less [] (y # ys) = True"
| "str_less (x # xs) [] = False"
| "str_less (x # xs) (y # ys) =
     (if (of_char x :: nat) < of_char y then True
      else if x = y then str_less xs ys else False)"

fun cell_gt :: "cell \<Rightarrow> cell \<Rightarrow> py_error + bool" where
  "cell_gt (N a) (N b) = Inr (b < a)"
| "cell_gt (S a) (S b) = Inr (str_less b a)"
| "cell_gt (N a) (S b) = Inl TypeError"
| "cell_gt (S a) (N b) = Inl TypeError"

fun max_from :: "rec \<Rightarrow> rec list \<Rightarrow> py_error + rec" where
  "max_from best [] = Inr best"
| "max_from best (c # cs) =
     (case cell_gt (get c ''Points'' (N 0)) (get best ''Points'' (N 0)) of
        Inl e \<Rightarrow> Inl e
      | Inr gt \<Rightarrow> max_from (if gt then c else best) cs)"

text \<open>
  The inner loop: every row of the seat and party that is not yet terminal gets
  Winner in column 10 when its name is the winner's name, Loser otherwise. The state
  is the sheet and the count of winners declared.
\<close>

fun mark_rows :: "cell \<Rightarrow> cell \<Rightarrow> cell \<Rightarrow> nat \<Rightarrow> rec list \<Rightarrow> sheet \<times> nat \<Rightarrow> sheet \<times> nat" where
  "mark_rows seat_id party winner_name i [] st = st"
| "mark_rows seat_id party winner_name i (record # records) st =
     (if get record ''Seat ID'' (S '''') = seat_id \<and> get record ''Party'' (S '''') = party
         \<and> \<not> terminal_status record
      then
        (if get record ''Name'' (S '''') = winner_name
         then mark_rows seat_id party winner_name (i + 1) records
                (update_cell (fst st) i 10 (S ''Winner''), snd st + 1)
         else mark_rows seat_id party winner_name (i + 1) records
                (update_cell (fst st) i 10 (S ''Loser''), snd st))
      else mark_rows seat_id party winner_name (i + 1) records st)"

fun tally_races :: "rec list \<Rightarrow> races \<Rightarrow> sheet \<times> nat \<Rightarrow> py_error option \<times> sheet \<times> nat" where
  "tally_races records [] st = (None, st)"
| "tally_races records (((seat_id, party), candidates) # rest) st =
     (case candidates of
        [] \<Rightarrow> tally_races records rest st
      | c # cs \<Rightarrow>
          (case max_from c cs of
             Inl e \<Rightarrow> (Some e, st)
           | Inr winner \<Rightarrow>
               tally_races records rest
                 (mark_rows seat_id party (get winner ''Name'' (S '''')) 2 records st)))"

definition tally_winners :: "world \<Rightarrow> bool \<Rightarrow> reply \<times> world" where
  "tally_winners w is_admin =
     (if \<not> is_admin then (NotAdmin, w)
      else
        (case get_sheet w AllSignups of
           None \<Rightarrow> (ErrorSignupsData, w)
         | Some signups_sheet \<Rightarrow>
             (let (records, sh) = get_all_records_safe signups_sheet;
                  races = group_races [] records
              in (case tally_races records races (sh, 0) of
                    (None, sh', winners_declared) \<Rightarrow>
                      (TallyComplete winners_declared, put_sheet w AllSignups sh')
                  | (Some e, sh', winners_declared) \<Rightarrow>
                      (ErrorOccurred, put_sheet w AllSignups sh')))))"

subsection \<open>transfer\_winners\<close>

text \<open>\<^verbatim>\<open>s.split(d)\<close> for a one-character separator.\<close>

fun split_on :: "char \<Rightarrow> string \<Rightarrow> string list" where
  "split_on d [] = [[]]"
| "split_on d (c # cs) =
     (if c = d then [] # split_on d cs
      else (case split_on d cs of p # ps \<Rightarrow> (c # p) # ps | [] \<Rightarrow> [[c]]))"

text \<open>The district label; \<^verbatim>\<open>"-" in seat_id\<close> raises when the seat is a number.\<close>

definition district_of :: "cell \<Rightarrow> py_error + string" where
  "district_of seat_id =
     (case seat_id of
        N i \<Rightarrow> Inl TypeError
      | S s \<Rightarrow>
          Inr (if CHR ''-'' \<in> set s
               then (let parts = split_on CHR ''-'' s
                     in if 3 \<le> length parts then ''District '' @ last parts else '''')
               else ''''))"

definition winner_headers :: row where
  "winner_headers =
     map S [''Year'', ''Office'', ''State'', ''District'', ''Candidate'', ''Party'', ''Points'',
            ''Votes'', ''Corruption'', ''Final Score'', ''Winner'']"

definition winner_row :: "int \<Rightarrow> rec \<Rightarrow> string \<Rightarrow> row" where
  "winner_row y record district =
     [N y, get record ''Office'' (S ''''), get record ''State'' (S ''''), S district,
      get record ''Name'' (S ''''), get record ''Party'' (S ''''), get record ''Points'' (N 0),
      N 0, get record ''Corruption'' (N 0), get record ''Points'' (N 0), S ''Yes'']"

text \<open>
  The scan of the winners read at the start of the command for a row of the same user
  and seat.
\<close>

definition already_exists :: "rec list \<Rightarrow> cell \<Rightarrow> cell \<Rightarrow> bool" where
  "already_exists winners_records user_id seat_id =
     list_ex (\<lambda>winner_record. str (get winner_record ''User ID'' (S '''')) = str user_id
                \<and> get winner_record ''Seat ID'' (S '''') = seat_id) winners_records"

fun transfer_rows ::
  "int \<Rightarrow> rec list \<Rightarrow> rec list \<Rightarrow> sheet \<times> nat \<Rightarrow> py_error option \<times> sheet \<times> nat" where
  "transfer_rows y winners_records [] st = (None, st)"
| "transfer_rows y winners_records (record # records) st =
     (if get record ''Winner'' (S '''') = S ''Winner''
      then
        (let user_id = get record ''User ID'' (S '''');
             seat_id = get record ''Seat ID'' (S '''')
         in if \<not> already_exists winners_records user_id seat_id
            then
              (case district_of seat_id of
                 Inl e \<Rightarrow> (Some e, st)
               | Inr district \<Rightarrow>
                   transfer_rows y winners_records records
                     (append_row (fst st) (winner_row y record district), snd st + 1))
            else transfer_rows y winners_records records st)
      else transfer_rows y winners_records records st)"

definition transfer_winners :: "world \<Rightarrow> bool \<Rightarrow> reply \<times> world" where
  "transfer_winners w is_admin =
     (if \<not> is_admin then (NotAdmin, w)
      else if get_sheet w AllSignups = None \<or> get_sheet w AllWinners = None
      then (ErrorRequiredSheets, w)
      else
        (case get_current_cycle w of
           None \<Rightarrow> (ErrorCycleData, w)
         | Some c \<Rightarrow>
             (let (records, w1) = read_records w AllSignups;
                  (winners_records, w2) = read_records w1 AllWinners;
                  winners_sheet = (case get_sheet w2 AllWinners of Some sh \<Rightarrow> sh | None \<Rightarrow> []);
                  sh0 = (if winners_records = [] then append_row winners_sheet winner_headers
                         else winners_sheet)
              in (case transfer_rows (year c) winners_records records (sh0, 0) of
                    (None, sh', transferred) \<Rightarrow>
                      (TransferComplete transferred, put_sheet w2 AllWinners sh')
                  | (Some e, sh', transferred) \<Rightarrow>
                      (ErrorOccurred, put_sheet w2 AllWinners sh')))))"

subsection \<open>Notions for the properties of the tally\<close>

text \<open>
  The layout \<^verbatim>\<open>tally_winners\<close> relies on: a header row that the read leaves as it
  is (no blank or repeated name, no white space around a name) and that has Winner as
  its tenth name, the column the handler writes.
\<close>

definition tally_layout :: "string list \<Rightarrow> bool" where
  "tally_layout hs \<longleftrightarrow>
     final_headers hs = hs \<and> distinct hs \<and> 10 \<le> length hs \<and> hs ! 9 = ''Winner''"

text \<open>
  The key of a record's race; the row a mark leaves behind; and the relation between
  the records read at the start of a tally and the worksheet while the tally runs:
  \<open>agrees hs K records sh\<close> says that the worksheet has the header row \<open>hs\<close> and
  one row per record, that the rows of the races in \<open>K\<close> which were not terminal are
  terminal now, and that every other row still reads as its record.
\<close>

definition race_key :: "rec \<Rightarrow> cell \<times> cell" where
  "race_key record = (get record ''Seat ID'' (S []), get record ''Party'' (S []))"

definition marked_row :: "cell \<Rightarrow> rec \<Rightarrow> row \<Rightarrow> row" where
  "marked_row winner_name record r =
     (pad 10 (S []) r)[9 := S (if get record ''Name'' (S []) = winner_name then ''Winner'' else ''Loser'')]"

definition agrees :: "string list \<Rightarrow> (cell \<times> cell) set \<Rightarrow> rec list \<Rightarrow> sheet \<Rightarrow> bool" where
  "agrees hs K records sh \<longleftrightarrow>
     length sh = length records + 1 \<and> map str (hd sh) = hs \<and>
     (\<forall>k<length records.
        (\<not> terminal_status (records ! k) \<and> race_key (records ! k) \<in> K \<longrightarrow>
           terminal_status (read_row hs (sh ! (k + 1)))) \<and>
        (terminal_status (records ! k) \<or> race_key (records ! k) \<notin> K \<longrightarrow>
           read_row hs (sh ! (k + 1)) = records ! k))"

section \<open>Example worksheets\<close>


text \<open>
  A world in the Primary phase with signups open: two candidates for the same seat and
  party in All Signups, and an All Winners worksheet not yet used.
\<close>

definition primary_example :: world where
  "primary_example =
     \<lparr>cycles_ws = Some
        [[S ''Year'', S ''State'', S ''Seat ID'', S ''Office'', S ''Term/Year'', S [], S ''Cycle''],
         [N 2024, S ''Austin'', S ''SEN-AU-1'', S ''Senate'', N 6, S [], N 2024],
         [N 2024, S ''Austin'', S ''REP-AU-2'', S ''House'', N 2, S [], S ''TRUE''],
         [N 2026, S ''Phoenix'', S ''REP-PH-1'', S ''House'', N 2, S [], S ''Primary'']],
      signups_ws = Some
        [map S signup_headers,
         [N 42, S ''Ava'', S ''SEN-AU-1'', S ''Independent'', S ''Primary'', S ''Senate'',
          N 0, N 100, N 10, S []],
         [N 43, S ''Bob'', S ''SEN-AU-1'', S ''Independent'', S ''Primary'', S ''Senate'',
          N 0, N 7, N 30, S []]],
      winners_ws = Some []\<rparr>"

text \<open>A tallied All Signups with one winner, and an All Winners worksheet not yet used.\<close>

definition tallied_example :: world where
  "tallied_example =
     \<lparr>cycles_ws = Some
        [[S ''Year'', S ''State'', S ''Seat ID'', S ''Office'', S ''Term/Year'', S [], S ''Cycle''],
         [N 2024, S ''Austin'', S ''SEN-AU-1'', S ''Senate'', N 6, S [], N 2024],
         [N 2024, S ''Austin'', S ''REP-AU-2'', S ''House'', N 2, S [], S ''FALSE''],
         [N 2026, S ''Phoenix'', S ''REP-PH-1'', S ''House'', N 2, S [], S ''Primary'']],
      signups_ws = Some
        [map S signup_headers,
         [N 42, S ''Ava'', S ''SEN-AU-1'', S ''Independent'', S ''Primary'', S ''Senate'',
          N 0, N 100, N 10, S ''Winner'']],
      winners_ws = Some []\<rparr>"

text \<open>Two candidates of the same name for the same seat and party.\<close>

definition namesakes_example :: world where
  "namesakes_example =
     \<lparr>cycles_ws = None,
      signups_ws = Some
        [map S signup_headers,
         [N 42, S ''Ava'', S ''SEN-AU-1'', S ''Independent'', S ''Primary'', S ''Senate'',
          N 0, N 100, N 30, S []],
         [N 44, S ''Ava'', S ''SEN-AU-1'', S ''Independent'', S ''Primary'', S ''Senate'',
          N 0, N 100, N 10, S []]],
      winners_ws = None\<rparr>"

text \<open>All Signups with Party as the tenth column and Winner as the fourth.\<close>

definition shuffled_example :: world where
  "shuffled_example =
     \<lparr>cycles_ws = None,
      signups_ws = Some
        [map S [''User ID'', ''Name'', ''Seat ID'', ''Winner'', ''Phase'', ''Office'',
                ''Corruption'', ''Stamina'', ''Points'', ''Party''],
         [N 42, S ''Ava'', S ''SEN-AU-1'', S [], S ''Primary'', S ''Senate'',
          N 0, N 100, N 10, S ''Independent''],
         [N 43, S ''Bob'', S ''SEN-AU-1'', S [], S ''Primary'', S ''Senate'',
          N 0, N 7, N 30, S ''Independent'']],
      winners_ws = None\<rparr>"

text \<open>
  A new cycle: signups are open, All Signups has been cleared down to its header row,
  and All Winners holds what \<^verbatim>\<open>transfer_winners\<close> wrote for the winner Ava, user 42.
\<close>

definition returning_example :: world where
  "returning_example =
     \<lparr>cycles_ws = Some
        [[S ''Year'', S ''State'', S ''Seat ID'', S ''Office'', S ''Term/Year'', S [], S ''Cycle''],
         [N 2024, S ''Austin'', S ''SEN-AU-1'', S ''Senate'', N 6, S [], N 2024],
         [N 2024, S ''Austin'', S ''REP-AU-2'', S ''House'', N 2, S [], S ''TRUE''],
         [N 2026, S ''Phoenix'', S ''REP-PH-1'', S ''House'', N 2, S [], S ''Primary'']],
      signups_ws = Some [map S signup_headers],
      winners_ws = Some
        [winner_headers,
         [N 2024, S ''Senate'', S [], S ''District 1'', S ''Ava'', S ''Independent'',
          N 10, N 0, N 0, N 10, S ''Yes'']]\<rparr>"

text \<open>A Primary world whose All Signups header has a space after the name Winner.\<close>

definition unclean_example :: world where
  "unclean_example =
     \<lparr>cycles_ws = Some
        [[S ''Year'', S ''State'', S ''Seat ID'', S ''Office'', S ''Term/Year'', S [], S ''Cycle''],
         [N 2024, S ''Austin'', S ''SEN-AU-1'', S ''Senate'', N 6, S [], N 2024],
         [N 2024, S ''Austin'', S ''REP-AU-2'', S ''House'', N 2, S [], S ''TRUE''],
         [N 2026, S ''Phoenix'', S ''REP-PH-1'', S ''House'', N 2, S [], S ''Primary'']],
      signups_ws = Some
        [map S [''User ID'', ''Name'', ''Seat ID'', ''Party'', ''Phase'', ''Office'',
                ''Corruption'', ''Stamina'', ''Points'', ''Winner ''],
         [N 42, S ''Ava'', S ''SEN-AU-1'', S ''Independent'', S ''Primary'', S ''Senate'',
          N 0, N 100, N 10, S []]],
      winners_ws = Some []\<rparr>"

declare digits.simps [simp del]

section \<open>Header cleaning\<close>

lemma digits_nonempty: "digits n \<noteq> []"
  by (subst digits.simps) simp

lemma clean_from_nonempty: "h \<in> set (clean_from i hs) \<Longrightarrow> h \<noteq> []"
  by (induction i hs rule: clean_from.induct) (auto split: if_splits)

lemma dedup_from_nonempty:
  "\<forall>h \<in> set hs. h \<noteq> [] \<Longrightarrow> h' \<in> set (dedup_from m hs) \<Longrightarrow> h' \<noteq> []"
  by (induction m hs rule: dedup_from.induct) (auto split: option.splits)

lemma final_headers_nonempty: "h \<in> set (final_headers header_row) \<Longrightarrow> h \<noteq> []"
  unfolding final_headers_def cleaned_headers_def
  using clean_from_nonempty dedup_from_nonempty by blast

lemma length_clean_from: "length (clean_from i hs) = length hs"
  by (induction i hs rule: clean_from.induct) auto

lemma length_dedup_from: "length (dedup_from m hs) = length hs"
  by (induction hs arbitrary: m) (auto split: option.splits)

lemma length_final_headers: "length (final_headers header_row) = length header_row"
  by (simp add: final_headers_def cleaned_headers_def length_clean_from length_dedup_from)

text \<open>
  C8. The header cleaning is meant to yield non-empty, pairwise different names, so that
  no column is lost when a row is turned into a mapping. On the header row
  \<^verbatim>\<open>A_1, (blank), A, A\<close> (one blank cell, one repeated name) the suffix given to the
  second \<^verbatim>\<open>A\<close> collides with the first header: the cleaned names are not pairwise
  different, the mapping of a four-column row has three keys only, and the read
  returns no records at all.
\<close>

theorem header_cleaning_collision:
  "final_headers [''A_1'', '''', ''A'', ''A''] = [''A_1'', ''Column_2'', ''A'', ''A_1'']
   \<and> \<not> distinct (final_headers [''A_1'', '''', ''A'', ''A''])
   \<and> card (dom (row_to_mapping (final_headers [''A_1'', '''', ''A'', ''A''])
                   [S ''w'', S ''x'', S ''y'', S ''z''])) = 3
   \<and> fst (get_all_records_safe
       [[S ''A_1'', S '''', S ''A'', S ''A''], [S ''w'', S ''x'', S ''y'', S ''z'']]) = []"
proof -
  have f: "final_headers [''A_1'', '''', ''A'', ''A''] = [''A_1'', ''Column_2'', ''A'', ''A_1'']"
    by code_simp
  have c: "dom (row_to_mapping [''A_1'', ''Column_2'', ''A'', ''A_1'']
              [S ''w'', S ''x'', S ''y'', S ''z'']) = {''A_1'', ''Column_2'', ''A''}"
    by (auto simp: row_to_mapping_def dom_def)
  have g: "fst (get_all_records_safe
       [[S ''A_1'', S '''', S ''A'', S ''A''], [S ''w'', S ''x'', S ''y'', S ''z'']]) = []"
    by code_simp
  show ?thesis
    unfolding f c using g by simp
qed

section \<open>The cycle state\<close>

lemma length_pad: "length (pad n x xs) = max n (length xs)"
  by (simp add: pad_def)

lemma nth_pad: "k < max n (length xs) \<Longrightarrow> pad n x xs ! k = (if k < length xs then xs ! k else x)"
  by (simp add: pad_def nth_append)






section \<open>rally and canvassing\<close>

lemma find_active_None: "find_active u i rs = None \<longleftrightarrow> (\<forall>r\<in>set rs. \<not> active_for u r)"
  by (induction rs arbitrary: i) auto

lemma find_active_first:
  "\<forall>x\<in>set pre. \<not> active_for u x \<Longrightarrow> active_for u r \<Longrightarrow>
   find_active u i (pre @ r # post) = Some (i + length pre, r)"
  by (induction pre arbitrary: i) auto


lemma point_action_not_signed_up:
  assumes "get_current_cycle w = Some c" "get_sheet w (phase_sheet c) = Some sh"
    "get_all_records_safe sh = (records, sh')" "\<forall>r\<in>set records. \<not> active_for (show_int uid) r"
  shows "point_action k cost lo hi w uid e = (NotSignedUp, put_sheet w (phase_sheet c) sh')"
  using assms by (simp add: point_action_def find_active_None [THEN iffD2])

lemma point_action_found:
  assumes "get_current_cycle w = Some c" "get_sheet w (phase_sheet c) = Some sh"
    "get_all_records_safe sh = (records, sh')"
    "records = pre @ r # post" "\<forall>x\<in>set pre. \<not> active_for (show_int uid) x"
    "active_for (show_int uid) r"
  shows "point_action k cost lo hi w uid e =
     (case get r ''Stamina'' (N 0) of
        S t \<Rightarrow> (ErrorOccurred, put_sheet w (phase_sheet c) sh')
      | N st \<Rightarrow>
         if st < cost then (NotEnoughStamina cost (max st 0), put_sheet w (phase_sheet c) sh')
         else (case get r ''Points'' (N 0) of
                 S t \<Rightarrow> (ErrorOccurred, put_sheet w (phase_sheet c) sh')
               | N p \<Rightarrow> (ActionDone k (get r ''Name'' (S [])) (randint lo hi e) (max (st - cost) 0),
                    put_sheet (put_sheet w (phase_sheet c) sh') (phase_sheet c)
                     (update_cell (update_cell sh' (length pre + 2) 8 (N (max (st - cost) 0)))
                         (length pre + 2) 9 (N (p + randint lo hi e))))))"
proof -
  have f: "find_active (show_int uid) 2 records = Some (length pre + 2, r)"
    using assms(4-6) find_active_first [of pre "show_int uid" r 2 post] by simp
  show ?thesis
    using assms(1-3) f by (simp add: point_action_def Let_def split: cell.splits)
qed

lemma tl_read: "get_all_records_safe sh = (records, sh') \<Longrightarrow> tl sh' = tl sh"
  by (auto simp: get_all_records_safe_def Let_def split: if_splits)

lemma clean_read: "get_all_records_safe sh = (records, sh') \<Longrightarrow>
   final_headers (map str (hd sh)) = map str (hd sh) \<Longrightarrow> sh' = sh"
  by (auto simp: get_all_records_safe_def Let_def split: if_splits)

lemma put_sheet_same: "get_sheet w nm = Some sh \<Longrightarrow> put_sheet w nm sh = w"
  by (cases nm) simp_all

lemma put_sheet_twice: "put_sheet (put_sheet w nm a) nm b = put_sheet w nm b"
  by (cases nm) simp_all




text \<open>
  C4. A rally or a canvassing answers "not signed up" when no record of the user that
  is not Withdrawn is in the worksheet of the current phase, and "not enough stamina"
  when the first such record has stamina below the cost. In both cases the handler
  writes no cell of its own: the worksheet is as the read left it. The read rewrites
  the header row when that needs cleaning; every data row is as before, and the whole
  worksheet is unchanged when the header row needed no cleaning.
\<close>

theorem action_failures_write_nothing:
  assumes "get_current_cycle w = Some c"
    and "get_sheet w (phase_sheet c) = Some sh"
    and "get_all_records_safe sh = (records, sh')"
    and "(handler, cost) \<in> {(rally, 10), (canvassing, 5)}"
  shows "((\<forall>r\<in>set records. \<not> active_for (show_int uid) r) \<longrightarrow>
            handler w uid e = (NotSignedUp, put_sheet w (phase_sheet c) sh'))
       \<and> (\<forall>pre r post st.
            records = pre @ r # post \<and> (\<forall>x\<in>set pre. \<not> active_for (show_int uid) x)
            \<and> active_for (show_int uid) r \<and> get r ''Stamina'' (N 0) = N st \<and> st < cost \<longrightarrow>
            handler w uid e = (NotEnoughStamina cost (max st 0), put_sheet w (phase_sheet c) sh'))
       \<and> tl sh' = tl sh
       \<and> (final_headers (map str (hd sh)) = map str (hd sh) \<longrightarrow> put_sheet w (phase_sheet c) sh' = w)"
proof -
  from assms(4) obtain k lo hi where h: "handler = point_action k cost lo hi"
    by (auto simp: rally_def canvassing_def)
  have a: "(\<forall>r\<in>set records. \<not> active_for (show_int uid) r) \<longrightarrow>
            handler w uid e = (NotSignedUp, put_sheet w (phase_sheet c) sh')"
    unfolding h using point_action_not_signed_up [OF assms(1-3)] by blast
  have b: "handler w uid e = (NotEnoughStamina cost (max st 0), put_sheet w (phase_sheet c) sh')"
    if "records = pre @ r # post" "\<forall>x\<in>set pre. \<not> active_for (show_int uid) x"
       "active_for (show_int uid) r" "get r ''Stamina'' (N 0) = N st" "st < cost"
    for pre r post st
    unfolding h using point_action_found [OF assms(1-3) that(1-3), of k cost lo hi e] that(4,5)
    by simp
  have c: "tl sh' = tl sh" using assms(3) by (rule tl_read)
  have d: "final_headers (map str (hd sh)) = map str (hd sh) \<longrightarrow> put_sheet w (phase_sheet c) sh' = w"
    using clean_read [OF assms(3)] put_sheet_same [OF assms(2)] by auto
  show ?thesis using a b c d by blast
qed

theorem action_failures_write_nothing_witness:
  "rally primary_example 99 0 = (NotSignedUp, primary_example)
   \<and> rally primary_example 43 0 = (NotEnoughStamina 10 7, primary_example)"
proof -
  let ?c = "\<lparr>year = 2024, signups_open = True, phase = ''Primary''\<rparr>"
  let ?ava = "[N 42, S ''Ava'', S ''SEN-AU-1'', S ''Independent'', S ''Primary'', S ''Senate'',
          N 0, N 100, N 10, S []]"
  let ?bob = "[N 43, S ''Bob'', S ''SEN-AU-1'', S ''Independent'', S ''Primary'', S ''Senate'',
          N 0, N 7, N 30, S []]"
  let ?sh = "[map S signup_headers, ?ava, ?bob]"
  let ?records = "[zip signup_headers ?ava, zip signup_headers ?bob]"
  have h1: "get_current_cycle primary_example = Some ?c" by code_simp
  have h2: "get_sheet primary_example (phase_sheet ?c) = Some ?sh" by code_simp
  have h3: "get_all_records_safe ?sh = (?records, ?sh)" by code_simp
  have h4: "(rally, 10) \<in> {(rally, 10), (canvassing, 5)}" by simp
  have clean: "final_headers (map str (hd ?sh)) = map str (hd ?sh)" by code_simp
  have none: "\<forall>r\<in>set ?records. \<not> active_for (show_int 99) r" by code_simp
  have found: "?records = [zip signup_headers ?ava] @ zip signup_headers ?bob # []
      \<and> (\<forall>x\<in>set [zip signup_headers ?ava]. \<not> active_for (show_int 43) x)
      \<and> active_for (show_int 43) (zip signup_headers ?bob)
      \<and> get (zip signup_headers ?bob) ''Stamina'' (N 0) = N 7 \<and> (7::int) < 10"
    by code_simp
  from action_failures_write_nothing [OF h1 h2 h3 h4, of 99 0] none clean
  have a: "rally primary_example 99 0 = (NotSignedUp, primary_example)" by simp
  from action_failures_write_nothing [OF h1 h2 h3 h4, of 43 0] found clean
  have b: "rally primary_example 43 0 = (NotEnoughStamina 10 7, primary_example)"
    by (metis max.absorb1 zero_le_numeral)
  show ?thesis using a b by simp
qed

text \<open>
  That no cell at all is written fails when the header row needs cleaning: with a
  space after the name Winner, a rally by a user who is not signed up fails and leaves
  row 1 rewritten.
\<close>

theorem failed_rally_rewrites_header:
  "fst (rally unclean_example 99 0) = NotSignedUp
   \<and> signups_ws unclean_example = Some
        [map S [''User ID'', ''Name'', ''Seat ID'', ''Party'', ''Phase'', ''Office'',
                ''Corruption'', ''Stamina'', ''Points'', ''Winner ''],
         [N 42, S ''Ava'', S ''SEN-AU-1'', S ''Independent'', S ''Primary'', S ''Senate'',
          N 0, N 100, N 10, S []]]
   \<and> signups_ws (snd (rally unclean_example 99 0)) = Some
        [map S [''User ID'', ''Name'', ''Seat ID'', ''Party'', ''Phase'', ''Office'',
                ''Corruption'', ''Stamina'', ''Points'', ''Winner''],
         [N 42, S ''Ava'', S ''SEN-AU-1'', S ''Independent'', S ''Primary'', S ''Senate'',
          N 0, N 100, N 10, S []]]
   \<and> snd (rally unclean_example 99 0) \<noteq> unclean_example"
proof -
  have a: "fst (rally unclean_example 99 0) = NotSignedUp" by code_simp
  have b: "signups_ws unclean_example = Some
        [map S [''User ID'', ''Name'', ''Seat ID'', ''Party'', ''Phase'', ''Office'',
                ''Corruption'', ''Stamina'', ''Points'', ''Winner ''],
         [N 42, S ''Ava'', S ''SEN-AU-1'', S ''Independent'', S ''Primary'', S ''Senate'',
          N 0, N 100, N 10, S []]]"
    by (simp add: unclean_example_def)
  have c: "signups_ws (snd (rally unclean_example 99 0)) = Some
        [map S [''User ID'', ''Name'', ''Seat ID'', ''Party'', ''Phase'', ''Office'',
                ''Corruption'', ''Stamina'', ''Points'', ''Winner''],
         [N 42, S ''Ava'', S ''SEN-AU-1'', S ''Independent'', S ''Primary'', S ''Senate'',
          N 0, N 100, N 10, S []]]"
    by code_simp
  have "signups_ws (snd (rally unclean_example 99 0)) \<noteq> signups_ws unclean_example"
    unfolding b c by simp
  then have "snd (rally unclean_example 99 0) \<noteq> unclean_example" by auto
  then show ?thesis using a b c by simp
qed





section \<open>poll\<close>

lemma signup_headers_clean: "final_headers signup_headers = signup_headers"
  by code_simp

lemma signup_headers_distinct: "distinct signup_headers"
  by code_simp

lemma state_not_header: "''State'' \<notin> set signup_headers"
  by code_simp

lemma read_signup_table:
  assumes "sh \<noteq> []" "map str (hd sh) = signup_headers"
  shows "get_all_records_safe sh =
           (if length sh < 2 then []
            else map (read_row signup_headers) (tl sh), sh)"
  using assms
  by (simp add: get_all_records_safe_def Let_def signup_headers_clean signup_headers_distinct)

lemma get_absent: "k \<notin> set hs \<Longrightarrow> get (zip hs r) k d = d"
proof -
  assume "k \<notin> set hs"
  then have "k \<notin> fst ` set (zip hs r)" by (auto dest: set_zip_leftD)
  then have "map_of (zip hs r) k = None" by (simp add: map_of_eq_None_iff)
  then show ?thesis by (simp add: get_def)
qed

lemma get_absent_row: "k \<notin> set hs \<Longrightarrow> get (read_row hs r) k d = d"
  unfolding read_row_def by (rule get_absent)

lemma filter_err_none: "\<forall>x\<in>set xs. p x = Inr False \<Longrightarrow> filter_err p xs = Inr []"
  by (induction xs) auto

lemma state_candidates_no_state:
  assumes "\<forall>r\<in>set records. get r ''State'' (S []) = S []" "scope \<noteq> []"
  shows "state_candidates scope ph records = Inr []"
  unfolding state_candidates_def
proof (rule filter_err_none, rule ballI)
  fix r assume "r \<in> set records"
  then have "get r ''State'' (S []) = S []" using assms(1) by blast
  moreover have "lower [] \<noteq> lower scope" using assms(2) by (simp add: lower_def)
  ultimately show "(case cell_lower (get r ''State'' (S [])) of Inl e \<Rightarrow> Inl e
           | Inr s \<Rightarrow> Inr (s = lower scope \<and> get r ''Phase'' (S []) = S ph
                              \<and> get r ''Winner'' (S []) \<noteq> S ''Withdrawn'')) = Inr False"
    by simp
qed

lemma poll_state_no_candidates:
  assumes "get_current_cycle w = Some c" "get_sheet w (phase_sheet c) = Some sh"
    "sh \<noteq> []" "map str (hd sh) = signup_headers" "scope \<noteq> []" "lower scope \<noteq> ''nation''"
  shows "poll w scope = (NoCandidatesIn scope, w)"
proof -
  let ?records = "if length sh < 2 then []
     else map (read_row signup_headers) (tl sh)"
  have rd: "get_all_records_safe sh = (?records, sh)"
    using read_signup_table [OF assms(3,4)] .
  have "\<forall>r\<in>set ?records. get r ''State'' (S []) = S []"
    by (auto simp: get_absent_row [OF state_not_header])
  then have sc: "state_candidates scope (phase c) ?records = Inr []"
    using assms(5) by (rule state_candidates_no_state)
  have rr: "read_records w (phase_sheet c) = (?records, w)"
    using assms(2) rd put_sheet_same [OF assms(2)] by (simp add: read_records_def)
  show ?thesis
    using assms(1,2,6) rr sc by (simp add: poll_def Let_def)
qed


lemma cycle_add_signup: "get_current_cycle (add_signup w uid name seat party st office) = get_current_cycle w"
  by (simp add: add_signup_def get_current_cycle_def split: option.splits)

text \<open>
  C9. The signup flow appends rows of exactly the ten columns of \<open>signup_headers\<close>,
  none of which is State. So every record read from All Signups lacks the State field,
  which \<^verbatim>\<open>poll\<close> then reads as the empty text; a poll for a state (a scope that is
  not empty and is not "nation" in any letter case) includes none of these candidates
  and answers that there are no candidates to poll, before and after a further signup.
\<close>

theorem state_poll_ignores_signups:
  assumes "get_current_cycle w = Some c"
    and "phase c = ''Primary''"
    and "get_sheet w AllSignups = Some sh"
    and "sh \<noteq> []"
    and "map str (hd sh) = signup_headers"
    and "scope \<noteq> []"
    and "lower scope \<noteq> ''nation''"
  shows "(\<forall>r\<in>set (fst (get_all_records_safe sh)). get r ''State'' (S []) = S [])
       \<and> poll w scope = (NoCandidatesIn scope, w)
       \<and> get_sheet (add_signup w uid name seat party st office) AllSignups =
           Some (sh @ [[N uid, S name, S seat, S party, S (phase c), office,
                        N 0, N 100, N 0, S []]])
       \<and> poll (add_signup w uid name seat party st office) scope =
           (NoCandidatesIn scope, add_signup w uid name seat party st office)"
proof -
  let ?w' = "add_signup w uid name seat party st office"
  let ?sh' = "sh @ [[N uid, S name, S seat, S party, S (phase c), office, N 0, N 100, N 0, S []]]"
  have ps: "phase_sheet c = AllSignups" using assms(2) by (simp add: phase_sheet_def)
  have a: "\<forall>r\<in>set (fst (get_all_records_safe sh)). get r ''State'' (S []) = S []"
    by (auto simp: read_signup_table [OF assms(4,5)] get_absent_row [OF state_not_header])
  have b: "poll w scope = (NoCandidatesIn scope, w)"
    using poll_state_no_candidates [OF assms(1) _ assms(4,5,6,7)] assms(3) ps by simp
  have c: "get_sheet ?w' AllSignups = Some ?sh'"
    using assms(1,3) by (simp add: add_signup_def append_row_def)
  have hd': "?sh' \<noteq> []" "map str (hd ?sh') = signup_headers"
    using assms(4,5) by simp_all
  have cy: "get_current_cycle ?w' = Some c"
    using assms(1) by (simp add: cycle_add_signup)
  have d: "poll ?w' scope = (NoCandidatesIn scope, ?w')"
    using poll_state_no_candidates [OF cy _ hd' assms(6,7)] c ps by simp
  show ?thesis using a b c d by blast
qed

theorem state_poll_ignores_signups_witness:
  "poll primary_example ''Austin'' = (NoCandidatesIn ''Austin'', primary_example)
   \<and> poll (add_signup primary_example 50 ''Zed'' ''REP-AU-2'' ''Democrats'' ''Austin'' (S ''House''))
        ''Austin''
      = (NoCandidatesIn ''Austin'',
         add_signup primary_example 50 ''Zed'' ''REP-AU-2'' ''Democrats'' ''Austin'' (S ''House''))"
proof -
  let ?c = "\<lparr>year = 2024, signups_open = True, phase = ''Primary''\<rparr>"
  let ?ava = "[N 42, S ''Ava'', S ''SEN-AU-1'', S ''Independent'', S ''Primary'', S ''Senate'',
          N 0, N 100, N 10, S []]"
  let ?bob = "[N 43, S ''Bob'', S ''SEN-AU-1'', S ''Independent'', S ''Primary'', S ''Senate'',
          N 0, N 7, N 30, S []]"
  let ?sh = "[map S signup_headers, ?ava, ?bob]"
  have h1: "get_current_cycle primary_example = Some ?c" by code_simp
  have h2: "phase ?c = ''Primary''" by simp
  have h3: "get_sheet primary_example AllSignups = Some ?sh" by code_simp
  have h4: "?sh \<noteq> []" by simp
  have h5: "map str (hd ?sh) = signup_headers" by (simp add: comp_def)
  have h6: "''Austin'' \<noteq> []" by simp
  have h7: "lower ''Austin'' \<noteq> ''nation''" by code_simp
  show ?thesis
    using state_poll_ignores_signups [OF h1 h2 h3 h4 h5 h6 h7,
            of 50 "''Zed''" "''REP-AU-2''" "''Democrats''" "''Austin''" "S ''House''"]
    by blast
qed










section \<open>signup\<close>

lemma length_read: "get_all_records_safe sh = (records, sh') \<Longrightarrow> length sh' = length sh"
  by (cases sh) (auto simp: get_all_records_safe_def Let_def split: if_splits)

lemma read_records_rows:
  "map_option tl (get_sheet (snd (read_records w nm)) nm') = map_option tl (get_sheet w nm')"
proof (cases "get_sheet w nm")
  case None
  then show ?thesis by (simp add: read_records_def)
next
  case (Some sh)
  obtain records sh' where r: "get_all_records_safe sh = (records, sh')"
    by (cases "get_all_records_safe sh")
  have "tl sh' = tl sh" using r by (rule tl_read)
  then show ?thesis using Some r
    by (cases nm; cases nm') (simp_all add: read_records_def)
qed

lemma read_records_length:
  "map_option length (get_sheet (snd (read_records w nm)) nm') = map_option length (get_sheet w nm')"
proof (cases "get_sheet w nm")
  case None
  then show ?thesis by (simp add: read_records_def)
next
  case (Some sh)
  obtain records sh' where r: "get_all_records_safe sh = (records, sh')"
    by (cases "get_all_records_safe sh")
  have "length sh' = length sh" using r by (rule length_read)
  then show ?thesis using Some r
    by (cases nm; cases nm') (simp_all add: read_records_def)
qed

lemma read_records_other:
  "nm' \<noteq> nm \<Longrightarrow> get_sheet (snd (read_records w nm)) nm' = get_sheet w nm'"
  by (cases nm; cases nm') (auto simp: read_records_def split: option.splits prod.splits)

lemma fst_read_records_other:
  "nm' \<noteq> nm \<Longrightarrow> fst (read_records (snd (read_records w nm)) nm') = fst (read_records w nm')"
  using read_records_other [of nm' nm w]
  by (simp add: read_records_def split: option.splits prod.splits)


lemma signup_rejects:
  assumes "active_in_signups (show_int uid) (fst (read_records w AllSignups))
           \<or> present_in_winners (show_int uid) (fst (read_records w AllWinners))"
  shows "signup w uid state name party = (ErrorSignupsData, w)
       \<or> signup w uid state name party = (AlreadySignedUp, snd (read_records w AllSignups))
       \<or> signup w uid state name party =
            (AlreadyActive, snd (read_records (snd (read_records w AllSignups)) AllWinners))"
proof (cases "get_sheet w AllSignups")
  case None
  then show ?thesis by (simp add: signup_def)
next
  case (Some s)
  obtain r1 w1 where r1: "read_records w AllSignups = (r1, w1)"
    by (cases "read_records w AllSignups")
  obtain r2 w2 where r2: "read_records w1 AllWinners = (r2, w2)"
    by (cases "read_records w1 AllWinners")
  have e: "r2 = fst (read_records w AllWinners)"
    using fst_read_records_other [of AllWinners AllSignups w] r1 r2 by simp
  show ?thesis
  proof (cases "active_in_signups (show_int uid) r1")
    case True
    then show ?thesis using Some r1 by (simp add: signup_def)
  next
    case False
    then have "present_in_winners (show_int uid) r2" using assms r1 e by simp
    then show ?thesis using Some r1 r2 False by (simp add: signup_def)
  qed
qed

lemma seat_callback_rejects:
  assumes "active_in_signups (show_int uid) (fst (read_records w AllSignups))
           \<or> present_in_winners (show_int uid) (fst (read_records w AllWinners))"
  shows "seat_callback w seats uid state name party seat_id = (InvalidSeat, w)
       \<or> seat_callback w seats uid state name party seat_id =
            (AlreadySignedUpOtherRace, snd (read_records (snd (read_records w AllSignups)) AllWinners))
       \<or> seat_callback w seats uid state name party seat_id =
            (AlreadyInWinnersSheet, snd (read_records (snd (read_records w AllSignups)) AllWinners))"
proof (cases "find (\<lambda>s. get s ''Seat ID'' (S []) = S seat_id) seats")
  case None
  then show ?thesis by (simp add: seat_callback_def)
next
  case (Some s)
  obtain r1 w1 where r1: "read_records w AllSignups = (r1, w1)"
    by (cases "read_records w AllSignups")
  obtain r2 w2 where r2: "read_records w1 AllWinners = (r2, w2)"
    by (cases "read_records w1 AllWinners")
  have e: "r2 = fst (read_records w AllWinners)"
    using fst_read_records_other [of AllWinners AllSignups w] r1 r2 by simp
  show ?thesis
  proof (cases "active_in_signups (show_int uid) r1")
    case True
    then show ?thesis using Some r1 r2 by (simp add: seat_callback_def)
  next
    case False
    then have "present_in_winners (show_int uid) r2" using assms r1 e by simp
    then show ?thesis using Some r1 r2 False by (simp add: seat_callback_def)
  qed
qed

lemma rows_after_reads:
  "map_option tl (get_sheet (snd (read_records (snd (read_records w a)) b)) nm)
     = map_option tl (get_sheet w nm)"
  "map_option length (get_sheet (snd (read_records (snd (read_records w a)) b)) nm)
     = map_option length (get_sheet w nm)"
  by (simp_all add: read_records_rows read_records_length)

text \<open>
  What the two scans do achieve: a user with a record in All Signups that is neither
  Withdrawn nor Loser, or with a record in All Winners that carries the user's id in a
  User ID field, is rejected by \<^verbatim>\<open>signup\<close> and by the seat button, and no row is
  appended.
\<close>

lemma signup_scans_reject:
  assumes "(\<exists>r\<in>set (fst (read_records w AllSignups)).
              str (get r ''User ID'' (S [])) = show_int uid
              \<and> get r ''Winner'' (S []) \<notin> {S ''Withdrawn'', S ''Loser''})
         \<or> (\<exists>r\<in>set (fst (read_records w AllWinners)).
              str (get r ''User ID'' (S [])) = show_int uid
              \<and> get r ''Winner'' (S []) \<notin> {S ''Withdrawn'', S ''Loser''})"
  shows "fst (signup w uid state name party) \<in> {ErrorSignupsData, AlreadySignedUp, AlreadyActive}
       \<and> map_option tl (get_sheet (snd (signup w uid state name party)) AllSignups)
           = map_option tl (get_sheet w AllSignups)
       \<and> map_option length (get_sheet (snd (signup w uid state name party)) AllSignups)
           = map_option length (get_sheet w AllSignups)
       \<and> fst (seat_callback w seats uid state name party seat_id)
           \<in> {InvalidSeat, AlreadySignedUpOtherRace, AlreadyInWinnersSheet}
       \<and> map_option tl (get_sheet (snd (seat_callback w seats uid state name party seat_id)) AllSignups)
           = map_option tl (get_sheet w AllSignups)
       \<and> map_option length
            (get_sheet (snd (seat_callback w seats uid state name party seat_id)) AllSignups)
           = map_option length (get_sheet w AllSignups)"
proof -
  have h: "active_in_signups (show_int uid) (fst (read_records w AllSignups))
           \<or> present_in_winners (show_int uid) (fst (read_records w AllWinners))"
    using assms by (auto simp: active_in_signups_def present_in_winners_def list_ex_iff)
  have s: "fst (signup w uid state name party) \<in> {ErrorSignupsData, AlreadySignedUp, AlreadyActive}
       \<and> map_option tl (get_sheet (snd (signup w uid state name party)) AllSignups)
           = map_option tl (get_sheet w AllSignups)
       \<and> map_option length (get_sheet (snd (signup w uid state name party)) AllSignups)
           = map_option length (get_sheet w AllSignups)"
    using signup_rejects [OF h, of state name party]
      read_records_rows [of w AllSignups AllSignups]
      read_records_length [of w AllSignups AllSignups]
      rows_after_reads [of w AllSignups AllWinners AllSignups]
    by auto
  have c: "fst (seat_callback w seats uid state name party seat_id)
           \<in> {InvalidSeat, AlreadySignedUpOtherRace, AlreadyInWinnersSheet}
       \<and> map_option tl (get_sheet (snd (seat_callback w seats uid state name party seat_id)) AllSignups)
           = map_option tl (get_sheet w AllSignups)
       \<and> map_option length
            (get_sheet (snd (seat_callback w seats uid state name party seat_id)) AllSignups)
           = map_option length (get_sheet w AllSignups)"
    using seat_callback_rejects [OF h, of seats state name party seat_id]
      rows_after_reads [of w AllSignups AllWinners AllSignups]
    by auto
  show ?thesis using s c by blast
qed


text \<open>
  C2. A user who already has a record that is neither Withdrawn nor Loser, in All
  Signups or in All Winners, must be rejected and no row appended. The rows of All
  Winners are written by \<^verbatim>\<open>transfer_winners\<close> without a User ID, so the scan of All
  Winners finds nobody: Ava, user 42, whose winner row is in All Winners, is offered
  the seats when All Signups has been cleared for the new cycle, and the seat button,
  after running the scans again, appends a new row for her.
\<close>

theorem winner_signs_up_again:
  "winners_ws returning_example = winners_ws (snd (transfer_winners tallied_example True))
   \<and> fst (signup returning_example 42 ''Austin'' ''Ava'' ''Independent'') =
       SeatChoice
         [[(''Year'', N 2024), (''State'', S ''Austin''), (''Seat ID'', S ''SEN-AU-1''),
           (''Office'', S ''Senate''), (''Term/Year'', N 6), (''Column_6'', S []),
           (''Cycle'', N 2024)],
          [(''Year'', N 2024), (''State'', S ''Austin''), (''Seat ID'', S ''REP-AU-2''),
           (''Office'', S ''House''), (''Term/Year'', N 2), (''Column_6'', S []),
           (''Cycle'', S ''TRUE'')]]
   \<and> fst (seat_callback (snd (signup returning_example 42 ''Austin'' ''Ava'' ''Independent''))
         [[(''Year'', N 2024), (''State'', S ''Austin''), (''Seat ID'', S ''SEN-AU-1''),
           (''Office'', S ''Senate''), (''Term/Year'', N 6), (''Column_6'', S []),
           (''Cycle'', N 2024)],
          [(''Year'', N 2024), (''State'', S ''Austin''), (''Seat ID'', S ''REP-AU-2''),
           (''Office'', S ''House''), (''Term/Year'', N 2), (''Column_6'', S []),
           (''Cycle'', S ''TRUE'')]]
         42 ''Austin'' ''Ava'' ''Independent'' ''SEN-AU-1'')
       = SignedUp ''Ava'' ''SEN-AU-1'' (S ''Senate'') ''Austin'' ''Independent''
   \<and> signups_ws
        (snd (seat_callback (snd (signup returning_example 42 ''Austin'' ''Ava'' ''Independent''))
         [[(''Year'', N 2024), (''State'', S ''Austin''), (''Seat ID'', S ''SEN-AU-1''),
           (''Office'', S ''Senate''), (''Term/Year'', N 6), (''Column_6'', S []),
           (''Cycle'', N 2024)],
          [(''Year'', N 2024), (''State'', S ''Austin''), (''Seat ID'', S ''REP-AU-2''),
           (''Office'', S ''House''), (''Term/Year'', N 2), (''Column_6'', S []),
           (''Cycle'', S ''TRUE'')]]
         42 ''Austin'' ''Ava'' ''Independent'' ''SEN-AU-1''))
       = Some [map S signup_headers,
               [N 42, S ''Ava'', S ''SEN-AU-1'', S ''Independent'', S ''Primary'', S ''Senate'',
                N 0, N 100, N 0, S []]]"
  by code_simp


section \<open>transfer\_winners\<close>

text \<open>
  C1. Running \<^verbatim>\<open>transfer_winners\<close> twice must not leave two rows for the same
  winner in All Winners. On a tallied All Signups with the single winner Ava (user 42,
  seat SEN-AU-1) and an empty All Winners, the first run writes the header row and
  Ava's row; the second run transfers Ava again. The rows written carry neither
  the user nor the seat identifier, so the scan for an existing row of the same user
  and seat never finds one.
\<close>

theorem transfer_twice_duplicates:
  "transfer_winners tallied_example True =
     (TransferComplete 1,
      tallied_example\<lparr>winners_ws := Some
        [winner_headers,
         [N 2024, S ''Senate'', S [], S ''District 1'', S ''Ava'', S ''Independent'',
          N 10, N 0, N 0, N 10, S ''Yes'']]\<rparr>)
   \<and> transfer_winners (snd (transfer_winners tallied_example True)) True =
     (TransferComplete 1,
      tallied_example\<lparr>winners_ws := Some
        [winner_headers,
         [N 2024, S ''Senate'', S [], S ''District 1'', S ''Ava'', S ''Independent'',
          N 10, N 0, N 0, N 10, S ''Yes''],
         [N 2024, S ''Senate'', S [], S ''District 1'', S ''Ava'', S ''Independent'',
          N 10, N 0, N 0, N 10, S ''Yes'']]\<rparr>)"
  by code_simp

section \<open>tally\_winners\<close>

text \<open>
  C6. \<^verbatim>\<open>tally_winners\<close> must mark exactly one row of each group of seat and party
  as Winner and every other row of the group as Loser. With two candidates named Ava
  for the same seat and party, with 30 and 10 points, both rows are marked Winner: the
  rows of a group are compared with the winner by name.
\<close>

theorem tally_marks_namesakes:
  "tally_winners namesakes_example True =
     (TallyComplete 2,
      namesakes_example\<lparr>signups_ws := Some
        [map S signup_headers,
         [N 42, S ''Ava'', S ''SEN-AU-1'', S ''Independent'', S ''Primary'', S ''Senate'',
          N 0, N 100, N 30, S ''Winner''],
         [N 44, S ''Ava'', S ''SEN-AU-1'', S ''Independent'', S ''Primary'', S ''Senate'',
          N 0, N 100, N 10, S ''Winner'']]\<rparr>)"
  by code_simp

lemma update_cell_in_range:
  "0 < i \<Longrightarrow> i - 1 < length sh \<Longrightarrow>
   update_cell sh i j v = sh[i - 1 := (pad j (S []) (sh ! (i - 1)))[j - 1 := v]]"
  by (simp add: update_cell_def pad_def Let_def nth_append)

lemma mark_rows_length:
  "0 < i \<Longrightarrow> i - 1 + length rs \<le> length (fst st) \<Longrightarrow>
   length (fst (mark_rows s p wn i rs st)) = length (fst st)"
proof (induction rs arbitrary: i st)
  case Nil
  then show ?case by simp
next
  case (Cons r rs)
  have ir: "i - 1 < length (fst st)" using Cons.prems by simp
  have step: "0 < i + 1" "i + 1 - 1 + length rs \<le> length (fst st)"
    using Cons.prems by simp_all
  show ?case
    using Cons.IH [OF step(1), of "(update_cell (fst st) i 10 (S ''Winner''), snd st + 1)"]
      Cons.IH [OF step(1), of "(update_cell (fst st) i 10 (S ''Loser''), snd st)"]
      Cons.IH [OF step(1), of st] step(2) Cons.prems(1) ir
    by (simp add: update_cell_in_range)
qed

lemma mark_rows_nth:
  assumes "0 < i" "i - 1 + length rs \<le> length (fst st)" "k < length (fst st)"
  shows "fst (mark_rows s p wn i rs st) ! k =
     (if i - 1 \<le> k \<and> k < i - 1 + length rs
         \<and> race_key (rs ! (k - (i - 1))) = (s, p) \<and> \<not> terminal_status (rs ! (k - (i - 1)))
      then marked_row wn (rs ! (k - (i - 1))) (fst st ! k)
      else fst st ! k)"
  using assms
proof (induction rs arbitrary: i st)
  case Nil
  then show ?case by auto
next
  case (Cons r rs)
  have ir: "i - 1 < length (fst st)" using Cons.prems by simp
  have i1: "0 < i + 1" by simp
  define c where "c \<longleftrightarrow> race_key r = (s, p) \<and> \<not> terminal_status r"
  define st' where "st' = (if c then (update_cell (fst st) i 10
                 (S (if get r ''Name'' (S []) = wn then ''Winner'' else ''Loser'')),
               if get r ''Name'' (S []) = wn then snd st + 1 else snd st) else st)"
  have m: "mark_rows s p wn i (r # rs) st = mark_rows s p wn (i + 1) rs st'"
    by (auto simp: race_key_def st'_def c_def)
  have fs: "fst st' = (if c then (fst st)[i - 1 := marked_row wn r (fst st ! (i - 1))] else fst st)"
    using Cons.prems(1) ir by (simp add: st'_def update_cell_in_range marked_row_def)
  have len: "length (fst st') = length (fst st)" by (simp add: fs)
  have b2: "i + 1 - 1 + length rs \<le> length (fst st')" using Cons.prems len by simp
  have b3: "k < length (fst st')" using Cons.prems len by simp
  have IH: "fst (mark_rows s p wn (i + 1) rs st') ! k =
     (if i \<le> k \<and> k < i + length rs
         \<and> race_key (rs ! (k - i)) = (s, p) \<and> \<not> terminal_status (rs ! (k - i))
      then marked_row wn (rs ! (k - i)) (fst st' ! k)
      else fst st' ! k)"
    using Cons.IH [OF i1 b2 b3] by simp
  show ?case
  proof (cases "k = i - 1")
    case True
    then have "\<not> i \<le> k" using Cons.prems(1) by simp
    then have e: "fst (mark_rows s p wn (i + 1) rs st') ! k = fst st' ! k"
      using IH by simp
    have rng: "i - 1 \<le> k" "k < i - 1 + length (r # rs)" "(r # rs) ! (k - (i - 1)) = r"
      using True by simp_all
    have lhs: "fst st' ! k = (if c then marked_row wn r (fst st ! k) else fst st ! k)"
      using True ir by (simp add: fs)
    show ?thesis unfolding m e lhs using rng by (simp add: c_def)
  next
    case False
    then have same: "fst st' ! k = fst st ! k" by (simp add: fs)
    show ?thesis
    proof (cases "i \<le> k")
      case True
      then have n: "(r # rs) ! (k - (i - 1)) = rs ! (k - i)"
        using Cons.prems(1) by (simp add: nth_Cons')
      have r1: "i - 1 \<le> k" using True by simp
      have r2: "k < i - 1 + length (r # rs) \<longleftrightarrow> k < i + length rs"
        using True Cons.prems(1) by auto
      show ?thesis unfolding m IH same n using True r1 r2 by simp
    next
      case f: False
      then have "\<not> i - 1 \<le> k" using False by simp
      then show ?thesis unfolding m IH same using f by simp
    qed
  qed
qed


lemma map_of_zip_at:
  "distinct xs \<Longrightarrow> i < length xs \<Longrightarrow> i < length ys \<Longrightarrow> map_of (zip xs ys) (xs ! i) = Some (ys ! i)"
proof (induction xs arbitrary: ys i)
  case Nil
  then show ?case by simp
next
  case (Cons x xs)
  then obtain y ys' where ys: "ys = y # ys'" by (cases ys) auto
  show ?case
  proof (cases i)
    case 0
    then show ?thesis by (simp add: ys)
  next
    case (Suc j)
    then have "xs ! j \<noteq> x" using Cons.prems by auto
    then show ?thesis using Suc Cons ys by simp
  qed
qed

lemma signup_layout: "tally_layout signup_headers"
  unfolding tally_layout_def
  by (simp add: signup_headers_clean signup_headers_distinct) (simp add: signup_headers_def)

lemma marked_row_terminal:
  assumes "tally_layout hs"
  shows "terminal_status (read_row hs (marked_row wn r ro))"
proof -
  let ?m = "pad (length hs) (S []) (marked_row wn r ro)"
  have d: "distinct hs" and l10: "9 < length hs" and w: "hs ! 9 = ''Winner''"
    using assms by (simp_all add: tally_layout_def)
  have l: "9 < length (marked_row wn r ro)"
    by (simp add: marked_row_def length_pad less_max_iff_disj)
  then have lm: "9 < length ?m" by (simp add: length_pad less_max_iff_disj)
  have "map_of (zip hs ?m) (hs ! 9) = Some (?m ! 9)"
    using d l10 lm by (rule map_of_zip_at)
  moreover have "?m ! 9 = marked_row wn r ro ! 9"
    using l by (simp add: nth_pad less_max_iff_disj)
  moreover have "marked_row wn r ro ! 9 = S ''Winner'' \<or> marked_row wn r ro ! 9 = S ''Loser''"
    using l by (simp add: marked_row_def length_pad less_max_iff_disj)
  ultimately show ?thesis
    by (auto simp: terminal_status_def get_def read_row_def w)
qed

lemma mark_agrees:
  assumes "agrees hs K rs sh" "(s, p) \<notin> K" "tally_layout hs"
  shows "agrees hs (insert (s, p) K) rs (fst (mark_rows s p wn 2 rs (sh, n)))"
proof -
  let ?sh' = "fst (mark_rows s p wn 2 rs (sh, n))"
  have len: "length sh = length rs + 1" and hdr: "map str (hd sh) = hs"
    using assms(1) by (simp_all add: agrees_def)
  have b: "2 - 1 + length rs \<le> length (fst (sh, n))" using len by simp
  have len': "length ?sh' = length sh"
    using mark_rows_length [of 2 rs "(sh, n)" s p wn] b by simp
  have nth: "?sh' ! k =
     (if 1 \<le> k \<and> k < 1 + length rs
         \<and> race_key (rs ! (k - 1)) = (s, p) \<and> \<not> terminal_status (rs ! (k - 1))
      then marked_row wn (rs ! (k - 1)) (sh ! k)
      else sh ! k)" if "k < length sh" for k
    using mark_rows_nth [of 2 rs "(sh, n)" k s p wn] b that by simp
  have h0: "?sh' ! 0 = sh ! 0" using nth [of 0] len by simp
  have ne: "sh \<noteq> []" "?sh' \<noteq> []" using len len' by auto
  have "hd ?sh' = hd sh"
    using h0 by (simp add: hd_conv_nth [OF ne(1)] hd_conv_nth [OF ne(2)])
  then have hdr': "map str (hd ?sh') = hs" using hdr by simp
  have rows: "(\<not> terminal_status (rs ! k) \<and> race_key (rs ! k) \<in> insert (s, p) K \<longrightarrow>
           terminal_status (read_row hs (?sh' ! (k + 1)))) \<and>
        (terminal_status (rs ! k) \<or> race_key (rs ! k) \<notin> insert (s, p) K \<longrightarrow>
           read_row hs (?sh' ! (k + 1)) = rs ! k)" if k: "k < length rs" for k
  proof -
    have old1: "\<not> terminal_status (rs ! k) \<and> race_key (rs ! k) \<in> K \<Longrightarrow>
           terminal_status (read_row hs (sh ! (k + 1)))"
      and old2: "terminal_status (rs ! k) \<or> race_key (rs ! k) \<notin> K \<Longrightarrow>
           read_row hs (sh ! (k + 1)) = rs ! k"
      using assms(1) k by (auto simp: agrees_def)
    have n: "?sh' ! (k + 1) =
       (if race_key (rs ! k) = (s, p) \<and> \<not> terminal_status (rs ! k)
        then marked_row wn (rs ! k) (sh ! (k + 1)) else sh ! (k + 1))"
      using nth [of "k + 1"] k len by simp
    show ?thesis
    proof (cases "race_key (rs ! k) = (s, p) \<and> \<not> terminal_status (rs ! k)")
      case True
      then show ?thesis using n by (simp add: marked_row_terminal [OF assms(3)])
    next
      case False
      then have e: "?sh' ! (k + 1) = sh ! (k + 1)" using n by auto
      show ?thesis unfolding e using False old1 old2 by blast
    qed
  qed
  show ?thesis
    unfolding agrees_def using len len' hdr' rows by simp
qed

lemma tally_races_agrees:
  assumes "agrees hs K rs sh" "distinct (map fst races)" "fst ` set races \<inter> K = {}"
    "\<forall>e\<in>set races. snd e \<noteq> []" "tally_layout hs"
  shows "\<exists>sh' n'.
           (tally_races rs races (sh, n) = (None, sh', n') \<and> agrees hs (K \<union> fst ` set races) rs sh')
         \<or> (\<exists>e pre key c cs post.
               tally_races rs races (sh, n) = (Some e, sh', n')
               \<and> races = pre @ (key, c # cs) # post \<and> max_from c cs = Inl e
               \<and> agrees hs (K \<union> fst ` set pre) rs sh')"
  using assms
proof (induction races arbitrary: K sh n)
  case Nil
  then show ?case by simp
next
  case (Cons g rest)
  obtain s p cands where g: "g = ((s, p), cands)" by (metis prod.collapse)
  from Cons.prems(4) obtain c cs where cands: "cands = c # cs"
    by (cases cands) (auto simp: g)
  show ?case
  proof (cases "max_from c cs")
    case (Inl e)
    have "tally_races rs (g # rest) (sh, n) = (Some e, sh, n)"
      by (simp add: g cands Inl)
    moreover have "g # rest = [] @ ((s, p), c # cs) # rest" by (simp add: g cands)
    moreover have "agrees hs (K \<union> fst ` set []) rs sh" using Cons.prems(1) by simp
    ultimately show ?thesis using Inl by blast
  next
    case (Inr winner)
    obtain sh1 n1 where m: "mark_rows s p (get winner ''Name'' (S [])) 2 rs (sh, n) = (sh1, n1)"
      by (cases "mark_rows s p (get winner ''Name'' (S [])) 2 rs (sh, n)")
    have run: "tally_races rs (g # rest) (sh, n) = tally_races rs rest (sh1, n1)"
      by (simp add: g cands Inr m)
    have notin: "(s, p) \<notin> K" using Cons.prems(3) by (auto simp: g)
    have a1: "agrees hs (insert (s, p) K) rs sh1"
      using mark_agrees [OF Cons.prems(1) notin Cons.prems(5), of "get winner ''Name'' (S [])" n] m
      by simp
    have d: "distinct (map fst rest)" and sp: "(s, p) \<notin> fst ` set rest"
      using Cons.prems(2) by (auto simp: g)
    have disj: "fst ` set rest \<inter> insert (s, p) K = {}"
      using Cons.prems(3) sp by auto
    have ne: "\<forall>e\<in>set rest. snd e \<noteq> []" using Cons.prems(4) by simp
    from Cons.IH [OF a1 d disj ne Cons.prems(5), of n1]
    obtain sh' n' where IH:
      "(tally_races rs rest (sh1, n1) = (None, sh', n')
          \<and> agrees hs (insert (s, p) K \<union> fst ` set rest) rs sh')
       \<or> (\<exists>e pre key c cs post.
               tally_races rs rest (sh1, n1) = (Some e, sh', n')
               \<and> rest = pre @ (key, c # cs) # post \<and> max_from c cs = Inl e
               \<and> agrees hs (insert (s, p) K \<union> fst ` set pre) rs sh')"
      by blast
    have k1: "K \<union> fst ` set (g # rest) = insert (s, p) K \<union> fst ` set rest"
      by (auto simp: g)
    show ?thesis
    proof (rule disjE [OF IH])
      assume "tally_races rs rest (sh1, n1) = (None, sh', n')
          \<and> agrees hs (insert (s, p) K \<union> fst ` set rest) rs sh'"
      then show ?thesis unfolding run k1 by blast
    next
      assume "\<exists>e pre key c cs post.
               tally_races rs rest (sh1, n1) = (Some e, sh', n')
               \<and> rest = pre @ (key, c # cs) # post \<and> max_from c cs = Inl e
               \<and> agrees hs (insert (s, p) K \<union> fst ` set pre) rs sh'"
      then obtain e pre key c' cs' post where
        r: "tally_races rs rest (sh1, n1) = (Some e, sh', n')"
        and sp': "rest = pre @ (key, c' # cs') # post" and mx: "max_from c' cs' = Inl e"
        and ag: "agrees hs (insert (s, p) K \<union> fst ` set pre) rs sh'"
        by blast
      have "g # rest = (g # pre) @ (key, c' # cs') # post" using sp' by simp
      moreover have "agrees hs (K \<union> fst ` set (g # pre)) rs sh'"
      proof -
        have "K \<union> fst ` set (g # pre) = insert (s, p) K \<union> fst ` set pre" by (auto simp: g)
        then show ?thesis using ag by simp
      qed
      ultimately show ?thesis unfolding run using r mx by blast
    qed
  qed
qed


lemma races_add_keys:
  "map fst (races_add acc k r) = (if k \<in> fst ` set acc then map fst acc else map fst acc @ [k])"
  by (induction acc k r rule: races_add.induct) auto

lemma races_add_nonempty:
  "\<forall>e\<in>set acc. snd e \<noteq> [] \<Longrightarrow> \<forall>e\<in>set (races_add acc k r). snd e \<noteq> []"
  by (induction acc k r rule: races_add.induct) auto

lemma group_races_distinct:
  "distinct (map fst acc) \<Longrightarrow> distinct (map fst (group_races acc rs))"
proof (induction rs arbitrary: acc)
  case Nil
  then show ?case by simp
next
  case (Cons r rs)
  have "distinct (map fst (races_add acc k r))" for k
    using Cons.prems by (simp add: races_add_keys)
  then show ?case using Cons by simp
qed

lemma group_races_nonempty:
  "\<forall>e\<in>set acc. snd e \<noteq> [] \<Longrightarrow> \<forall>e\<in>set (group_races acc rs). snd e \<noteq> []"
proof (induction rs arbitrary: acc)
  case Nil
  then show ?case by simp
next
  case (Cons r rs)
  show ?case
  proof (cases "terminal_status r")
    case True
    then show ?thesis using Cons.IH [OF Cons.prems] by simp
  next
    case False
    then show ?thesis
      using Cons.IH [OF races_add_nonempty [OF Cons.prems,
              of "(get r ''Seat ID'' (S []), get r ''Party'' (S []))" r]]
      by simp
  qed
qed

lemma filter_races_add_in:
  "k \<in> K \<Longrightarrow> filter (\<lambda>e. fst e \<notin> K) (races_add acc k r) = filter (\<lambda>e. fst e \<notin> K) acc"
  by (induction acc k r rule: races_add.induct) auto

lemma filter_races_add_out:
  "k \<notin> K \<Longrightarrow> filter (\<lambda>e. fst e \<notin> K) (races_add acc k r)
     = races_add (filter (\<lambda>e. fst e \<notin> K) acc) k r"
  by (induction acc k r rule: races_add.induct) auto

lemma group_races_filter:
  assumes "list_all2 (\<lambda>r r1. (\<not> terminal_status r \<and> race_key r \<in> K \<longrightarrow> terminal_status r1)
                          \<and> (terminal_status r \<or> race_key r \<notin> K \<longrightarrow> r1 = r)) rs rs1"
  shows "group_races (filter (\<lambda>e. fst e \<notin> K) acc) rs1
         = filter (\<lambda>e. fst e \<notin> K) (group_races acc rs)"
  using assms
proof (induction rs rs1 arbitrary: acc rule: list_all2_induct)
  case Nil
  then show ?case by simp
next
  case (Cons r rs r1 rs1)
  show ?case
  proof (cases "terminal_status r")
    case True
    then have "r1 = r" using Cons.hyps(1) by simp
    then show ?thesis using True Cons.IH [of acc] by simp
  next
    case nt: False
    show ?thesis
    proof (cases "race_key r \<in> K")
      case True
      then have "terminal_status r1" using nt Cons.hyps(1) by simp
      then show ?thesis
        using nt Cons.IH [of "races_add acc (race_key r) r"] filter_races_add_in [OF True, of acc r]
        by (simp add: race_key_def)
    next
      case False
      then have "r1 = r" using Cons.hyps(1) by simp
      then show ?thesis
        using nt Cons.IH [of "races_add acc (race_key r) r"] filter_races_add_out [OF False, of acc r]
        by (simp add: race_key_def)
    qed
  qed
qed

lemma tally_world:
  assumes "get_sheet w AllSignups = Some s0" "get_all_records_safe s0 = (rs, sh)"
  shows "snd (tally_winners w True)
         = put_sheet w AllSignups (fst (snd (tally_races rs (group_races [] rs) (sh, 0))))"
  using assms by (simp add: tally_winners_def split: prod.splits option.splits)

lemma agrees_list_all2:
  assumes "agrees hs K rs sh"
  shows "list_all2 (\<lambda>r r1. (\<not> terminal_status r \<and> race_key r \<in> K \<longrightarrow> terminal_status r1)
                          \<and> (terminal_status r \<or> race_key r \<notin> K \<longrightarrow> r1 = r))
           rs (map (read_row hs) (tl sh))"
proof -
  have len: "length (tl sh) = length rs" using assms by (simp add: agrees_def)
  have "map (read_row hs) (tl sh) ! k = read_row hs (sh ! (k + 1))"
    if "k < length rs" for k
    using that len by (simp add: nth_tl)
  then show ?thesis
    using assms len by (auto simp: list_all2_conv_all_nth agrees_def)
qed

lemma filter_processed:
  assumes "distinct (map fst (pre @ g # post))"
  shows "filter (\<lambda>e. fst e \<notin> fst ` set pre) (pre @ g # post) = g # post"
proof -
  have a: "filter (\<lambda>e. fst e \<notin> fst ` set pre) pre = []"
    by (auto simp: filter_empty_conv)
  have b: "filter (\<lambda>e. fst e \<notin> fst ` set pre) (g # post) = g # post"
    using assms by (auto simp: filter_id_conv)
  show ?thesis using a b by simp
qed

lemma filter_all_processed: "filter (\<lambda>e. fst e \<notin> fst ` set races) races = []"
  by (auto simp: filter_empty_conv)

lemma second_tally_writes_nothing:
  assumes ag0: "agrees hs {} rs sh" and lay: "tally_layout hs"
  defines "races \<equiv> group_races [] rs"
  defines "sh' \<equiv> fst (snd (tally_races rs races (sh, 0)))"
  defines "rs1 \<equiv> map (read_row hs) (tl sh')"
  shows "fst (snd (tally_races rs1 (group_races [] rs1) (sh', 0))) = sh'
         \<and> length sh' = length sh \<and> map str (hd sh') = hs"
proof -
  have d: "distinct (map fst races)" unfolding races_def by (rule group_races_distinct) simp
  have ne: "\<forall>e\<in>set races. snd e \<noteq> []" unfolding races_def by (rule group_races_nonempty) simp
  have disj: "fst ` set races \<inter> {} = {}" by simp
  from tally_races_agrees [OF ag0 d disj ne lay, of 0]
  obtain s' n' where r:
    "(tally_races rs races (sh, 0) = (None, s', n') \<and> agrees hs ({} \<union> fst ` set races) rs s')
     \<or> (\<exists>e pre key c cs post.
               tally_races rs races (sh, 0) = (Some e, s', n')
               \<and> races = pre @ (key, c # cs) # post \<and> max_from c cs = Inl e
               \<and> agrees hs ({} \<union> fst ` set pre) rs s')"
    by blast
  show ?thesis
  proof (rule disjE [OF r])
    assume a: "tally_races rs races (sh, 0) = (None, s', n') \<and> agrees hs ({} \<union> fst ` set races) rs s'"
    then have s': "sh' = s'" by (simp add: sh'_def)
    have ag: "agrees hs (fst ` set races) rs sh'" using a s' by simp
    have "group_races (filter (\<lambda>e. fst e \<notin> fst ` set races) []) rs1
           = filter (\<lambda>e. fst e \<notin> fst ` set races) (group_races [] rs)"
      unfolding rs1_def by (rule group_races_filter [OF agrees_list_all2 [OF ag]])
    then have "group_races [] rs1 = []"
      using filter_all_processed [of races] by (simp add: races_def)
    then show ?thesis using ag ag0 by (simp add: agrees_def)
  next
    assume "\<exists>e pre key c cs post.
               tally_races rs races (sh, 0) = (Some e, s', n')
               \<and> races = pre @ (key, c # cs) # post \<and> max_from c cs = Inl e
               \<and> agrees hs ({} \<union> fst ` set pre) rs s'"
    then obtain e pre key c cs post where
      t: "tally_races rs races (sh, 0) = (Some e, s', n')"
      and sp: "races = pre @ (key, c # cs) # post" and mx: "max_from c cs = Inl e"
      and ag': "agrees hs ({} \<union> fst ` set pre) rs s'"
      by blast
    have s': "sh' = s'" using t by (simp add: sh'_def)
    have ag: "agrees hs (fst ` set pre) rs sh'" using ag' s' by simp
    have "group_races (filter (\<lambda>e. fst e \<notin> fst ` set pre) []) rs1
           = filter (\<lambda>e. fst e \<notin> fst ` set pre) (group_races [] rs)"
      unfolding rs1_def by (rule group_races_filter [OF agrees_list_all2 [OF ag]])
    then have "group_races [] rs1 = (key, c # cs) # post"
      using filter_processed [of pre "(key, c # cs)" post] d sp by (simp add: races_def)
    then have "tally_races rs1 (group_races [] rs1) (sh', 0) = (Some e, sh', 0)"
      using mx by (cases key) simp
    then show ?thesis using ag ag0 by (simp add: agrees_def)
  qed
qed


lemma read_layout_table:
  assumes "tally_layout hs" "sh \<noteq> []" "map str (hd sh) = hs"
  shows "get_all_records_safe sh =
           (if length sh < 2 then [] else map (read_row hs) (tl sh), sh)"
  using assms by (simp add: get_all_records_safe_def Let_def tally_layout_def)

text \<open>
  C7. \<^verbatim>\<open>tally_winners\<close> run twice in a row leaves every row as one run leaves it,
  on an All Signups worksheet whose header row needs no cleaning and has Winner as its
  tenth name, whatever the data rows hold. After a run that completes, every row is
  terminal and the second run finds no race; after a run stopped by an exception, the
  second run stops at the same race before it writes anything.
\<close>

theorem tally_idempotent:
  assumes "\<forall>sh. get_sheet w AllSignups = Some sh \<and> 2 \<le> length sh
                \<longrightarrow> tally_layout (map str (hd sh))"
  shows "snd (tally_winners (snd (tally_winners w is_admin)) is_admin)
         = snd (tally_winners w is_admin)"
proof (cases is_admin)
  case False
  then show ?thesis by (simp add: tally_winners_def)
next
  case True
  show ?thesis
  proof (cases "get_sheet w AllSignups")
    case None
    then show ?thesis by (simp add: tally_winners_def)
  next
    case (Some sh)
    show ?thesis
    proof (cases "length sh < 2")
      case short: True
      then have "get_all_records_safe sh = ([], sh)" by (simp add: get_all_records_safe_def)
      then have "snd (tally_winners w True) = w"
        using tally_world [OF Some, of "[]" sh] put_sheet_same [OF Some] by simp
      then show ?thesis using True by simp
    next
      case long: False
      define hs where "hs = map str (hd sh)"
      have lay: "tally_layout hs" and ne: "sh \<noteq> []"
        using assms Some long by (auto simp: hs_def)
      have hdr: "map str (hd sh) = hs" by (simp add: hs_def)
      let ?rs = "map (read_row hs) (tl sh)"
      let ?sh' = "fst (snd (tally_races ?rs (group_races [] ?rs) (sh, 0)))"
      let ?rs1 = "map (read_row hs) (tl ?sh')"
      have rd: "get_all_records_safe sh = (?rs, sh)"
        using read_layout_table [OF lay ne hdr] long by simp
      have ag0: "agrees hs {} ?rs sh"
        using ne hdr by (simp add: agrees_def nth_tl)
      have w1: "snd (tally_winners w True) = put_sheet w AllSignups ?sh'"
        using tally_world [OF Some rd] .
      have s: "fst (snd (tally_races ?rs1 (group_races [] ?rs1) (?sh', 0))) = ?sh'"
        and len: "length ?sh' = length sh" and hdr': "map str (hd ?sh') = hs"
        using second_tally_writes_nothing [OF ag0 lay] by simp_all
      have ne': "?sh' \<noteq> []" using len ne by auto
      have rd': "get_all_records_safe ?sh' = (?rs1, ?sh')"
        using read_layout_table [OF lay ne' hdr'] long len by simp
      have g1: "get_sheet (put_sheet w AllSignups ?sh') AllSignups = Some ?sh'" by simp
      have "snd (tally_winners (put_sheet w AllSignups ?sh') True)
              = put_sheet (put_sheet w AllSignups ?sh') AllSignups ?sh'"
        using tally_world [OF g1 rd'] s by simp
      then show ?thesis using True w1 by (simp add: put_sheet_twice)
    qed
  qed
qed

theorem tally_idempotent_witness:
  "tally_layout (map str (hd [map S signup_headers,
                [N 42, S ''Ava'', S ''SEN-AU-1'', S ''Independent'', S ''Primary'', S ''Senate'',
                 N 0, N 100, N 10, S []],
                [N 43, S ''Bob'', S ''SEN-AU-1'', S ''Independent'', S ''Primary'', S ''Senate'',
                 N 0, N 7, N 30, S []]]))
   \<and> signups_ws (snd (tally_winners primary_example True)) = Some
        [map S signup_headers,
         [N 42, S ''Ava'', S ''SEN-AU-1'', S ''Independent'', S ''Primary'', S ''Senate'',
          N 0, N 100, N 10, S ''Loser''],
         [N 43, S ''Bob'', S ''SEN-AU-1'', S ''Independent'', S ''Primary'', S ''Senate'',
          N 0, N 7, N 30, S ''Winner'']]
   \<and> snd (tally_winners (snd (tally_winners primary_example True)) True)
       = snd (tally_winners primary_example True)"
proof -
  have h: "\<forall>sh. get_sheet primary_example AllSignups = Some sh \<and> 2 \<le> length sh
          \<longrightarrow> tally_layout (map str (hd sh))"
    using signup_layout by (simp add: primary_example_def comp_def)
  have e: "signups_ws (snd (tally_winners primary_example True)) = Some
        [map S signup_headers,
         [N 42, S ''Ava'', S ''SEN-AU-1'', S ''Independent'', S ''Primary'', S ''Senate'',
          N 0, N 100, N 10, S ''Loser''],
         [N 43, S ''Bob'', S ''SEN-AU-1'', S ''Independent'', S ''Primary'', S ''Senate'',
          N 0, N 7, N 30, S ''Winner'']]"
    by code_simp
  show ?thesis
    using tally_idempotent [OF h, of True] e signup_layout by (simp add: comp_def)
qed

text \<open>
  The claim as first stated, for every table, fails where the tenth column is not
  Winner: with Party there, the first run writes its marks into the Party column, the
  Winner fields stay blank, and the second run tallies the rows again, by their new
  "parties".
\<close>

theorem tally_twice_differs:
  "signups_ws (snd (tally_winners shuffled_example True)) = Some
     [map S [''User ID'', ''Name'', ''Seat ID'', ''Winner'', ''Phase'', ''Office'',
             ''Corruption'', ''Stamina'', ''Points'', ''Party''],
      [N 42, S ''Ava'', S ''SEN-AU-1'', S [], S ''Primary'', S ''Senate'',
       N 0, N 100, N 10, S ''Loser''],
      [N 43, S ''Bob'', S ''SEN-AU-1'', S [], S ''Primary'', S ''Senate'',
       N 0, N 7, N 30, S ''Winner'']]
   \<and> signups_ws (snd (tally_winners (snd (tally_winners shuffled_example True)) True)) = Some
     [map S [''User ID'', ''Name'', ''Seat ID'', ''Winner'', ''Phase'', ''Office'',
             ''Corruption'', ''Stamina'', ''Points'', ''Party''],
      [N 42, S ''Ava'', S ''SEN-AU-1'', S [], S ''Primary'', S ''Senate'',
       N 0, N 100, N 10, S ''Winner''],
      [N 43, S ''Bob'', S ''SEN-AU-1'', S [], S ''Primary'', S ''Senate'',
       N 0, N 7, N 30, S ''Winner'']]
   \<and> snd (tally_winners (snd (tally_winners shuffled_example True)) True)
       \<noteq> snd (tally_winners shuffled_example True)"
proof -
  have a: "signups_ws (snd (tally_winners shuffled_example True)) = Some
     [map S [''User ID'', ''Name'', ''Seat ID'', ''Winner'', ''Phase'', ''Office'',
             ''Corruption'', ''Stamina'', ''Points'', ''Party''],
      [N 42, S ''Ava'', S ''SEN-AU-1'', S [], S ''Primary'', S ''Senate'',
       N 0, N 100, N 10, S ''Loser''],
      [N 43, S ''Bob'', S ''SEN-AU-1'', S [], S ''Primary'', S ''Senate'',
       N 0, N 7, N 30, S ''Winner'']]"
    by code_simp
  have b: "signups_ws (snd (tally_winners (snd (tally_winners shuffled_example True)) True)) = Some
     [map S [''User ID'', ''Name'', ''Seat ID'', ''Winner'', ''Phase'', ''Office'',
             ''Corruption'', ''Stamina'', ''Points'', ''Party''],
      [N 42, S ''Ava'', S ''SEN-AU-1'', S [], S ''Primary'', S ''Senate'',
       N 0, N 100, N 10, S ''Winner''],
      [N 43, S ''Bob'', S ''SEN-AU-1'', S [], S ''Primary'', S ''Senate'',
       N 0, N 7, N 30, S ''Winner'']]"
    by code_simp
  have "signups_ws (snd (tally_winners (snd (tally_winners shuffled_example True)) True))
       \<noteq> signups_ws (snd (tally_winners shuffled_example True))"
    unfolding a b by simp
  then have "snd (tally_winners (snd (tally_winners shuffled_example True)) True)
       \<noteq> snd (tally_winners shuffled_example True)"
    by auto
  then show ?thesis using a b by simp
qed

end
